theory Spec2Isabelle
  imports Main "HOL-Library.Char_ord" "HOL-Library.List_Lexorder" "HOL-Library.Multiset"
    "HOL-Library.Word"
begin

section \<open>The MRO canonical formatter (martian/syntax/formatter.go)\<close>

text \<open>
  A shallow embedding of the formatter. A Go method that writes to the printer becomes a
  function from the printer to the new printer; a method that also assigns to the AST
  node it is called on returns the new node beside the printer. A run-time panic of the
  Go code (a nil dereference, \<^verbatim>\<open>strings.Repeat\<close> with a negative count) is the
  value \<open>None\<close>. Go strings are byte strings, \<open>len\<close> counts bytes and \<open><\<close> compares
  bytewise: \<open>string\<close> with the lexicographic order on \<open>char list\<close>. Go's \<open>int\<close> is
  \<open>int\<close>; the only arithmetic is on string lengths, line numbers and array dimensions,
  far from the 64-bit range.

  The struct declarations of the AST are outside src. Each record below holds the fields
  that formatter.go reads or writes, under the names the code uses (with a prefix where
  two structs share a field name), with the types the grammar's actions give them. A
  pointer that the code tests against nil is an \<open>option\<close>; a pointer that the code
  dereferences without a test is the value it points to, except the \<open>File\<close> of a source
  location, whose nil case is kept because the printer starts from it.
\<close>

subsection \<open>Source locations, comments, nodes\<close>

datatype SourceFile = SourceFile (FileName: string) (FullPath: string) (IncludedFrom: "SourceLoc list")
  and SourceLoc = SourceLoc (Line: int) (File: "SourceFile option")

record commentBlock =
  cb_Loc :: SourceLoc
  cb_Value :: string

record AstNode =
  Loc :: SourceLoc
  scopeComments :: "commentBlock list"
  Comments :: "string list"

subsection \<open>Expressions\<close>

text \<open>
  A \<open>float64\<close> is its IEEE-754 bit pattern. The formatter only hands it to
  \<^verbatim>\<open>fmt.Fprintf("%g")\<close>, a function of Go's standard library: that rendering is the
  parameter \<open>fmtG\<close> of every function below that can reach a float literal.
\<close>

type_synonym float64 = "64 word"

datatype ExpKind = KindCall | KindSelf

record RefExp =
  ref_Node :: AstNode
  ref_Kind :: ExpKind
  ref_Id :: string
  OutputId :: string

text \<open>
  \<open>ValExp\<close> carries \<open>Kind\<close> and an untyped \<open>Value\<close> in Go; the grammar's actions always
  build the two consistently (\<open>KindArray\<close> with a \<open>[]Exp\<close>, \<open>KindNull\<close> with \<open>nil\<close>, ...),
  so the constructor of \<open>Val\<close> stands for both. A Go map has one entry per key: \<open>VMap\<close>
  holds its entries as an association list.
\<close>

datatype Exp = ValExp AstNode Val | Ref RefExp
  and Val = VNull | VInt int | VFloat float64 | VString string | VBool bool
    | VArray "Exp list" | VMap "(string \<times> Exp) list"

fun Exp_getNode :: "Exp \<Rightarrow> AstNode" where
  "Exp_getNode (ValExp n v) = n"
| "Exp_getNode (Ref r) = ref_Node r"

definition INDENT :: string where
  "INDENT = ''    ''"

definition NEWLINE :: string where
  "NEWLINE = [CHR 0x0A]"

definition DQ :: string where
  "DQ = [CHR 0x22]"

text \<open>\<^verbatim>\<open>len(s)\<close> as a Go \<open>int\<close>.\<close>

definition len :: "string \<Rightarrow> int" where
  "len s = int (length s)"

text \<open>\<^verbatim>\<open>strings.Repeat(s, count)\<close> panics on a negative count.\<close>

definition Repeat :: "string \<Rightarrow> int \<Rightarrow> string option" where
  "Repeat s n = (if n < 0 then None else Some (concat (replicate (nat n) s)))"

text \<open>The verb \<^verbatim>\<open>%d\<close> on an integer: its decimal digits, with a minus sign when negative.\<close>

fun show_nat :: "nat \<Rightarrow> string" where
  "show_nat n = (if n < 10 then [char_of (48 + n)]
                 else show_nat (n div 10) @ [char_of (48 + n mod 10)])"

definition show_int :: "int \<Rightarrow> string" where
  "show_int i = (if i < 0 then ''-'' @ show_nat (nat (- i)) else show_nat (nat i))"

definition RefExp_format :: "RefExp \<Rightarrow> string" where
  "RefExp_format r =
     (if ref_Kind r = KindCall
      then ref_Id r @ (if OutputId r \<noteq> ''default'' then ''.'' @ OutputId r else '''')
      else ''self.'' @ ref_Id r)"

text \<open>
  \<open>ValExp.format\<close>, \<open>formatArray\<close>, \<open>formatMap\<close> and \<open>RefExp.format\<close> write to a plain
  \<open>stringWriter\<close>: the model returns the text they append. \<open>formatMap\<close> collects the keys,
  sorts them and looks each one up; on entries with one entry per key that is the entries
  sorted by key.
\<close>

fun Exp_format :: "(float64 \<Rightarrow> string) \<Rightarrow> string \<Rightarrow> Exp \<Rightarrow> string" where
  "Exp_format fmtG prefix (ValExp n VNull) = ''null''"
| "Exp_format fmtG prefix (ValExp n (VInt i)) = show_int i"
| "Exp_format fmtG prefix (ValExp n (VFloat f)) = fmtG f"
| "Exp_format fmtG prefix (ValExp n (VString s)) = DQ @ s @ DQ"
| "Exp_format fmtG prefix (ValExp n (VMap kvs)) =
     (if kvs = [] then ''{}''
      else ''{'' @ NEWLINE @
        concat (map (\<lambda>kv. (prefix @ INDENT) @ DQ @ fst kv @ DQ @ '': '' @
                        Exp_format fmtG (prefix @ INDENT) (snd kv) @ '','' @ NEWLINE)
                    (sort_key fst kvs))
        @ prefix @ ''}'')"
| "Exp_format fmtG prefix (ValExp n (VArray vs)) =
     (case vs of
        [] \<Rightarrow> ''[]''
      | [v] \<Rightarrow> ''['' @ Exp_format fmtG prefix v @ '']''
      | _ \<Rightarrow> ''['' @ NEWLINE @
          concat (map (\<lambda>v. (prefix @ INDENT) @ Exp_format fmtG (prefix @ INDENT) v @ '','' @ NEWLINE) vs)
          @ prefix @ '']'')"
| "Exp_format fmtG prefix (ValExp n (VBool b)) = (if b then ''true'' else ''false'')"
| "Exp_format fmtG prefix (Ref r) = RefExp_format r"

definition ValExp_formatSweep :: "(float64 \<Rightarrow> string) \<Rightarrow> string \<Rightarrow> Exp list \<Rightarrow> string" where
  "ValExp_formatSweep fmtG prefix vals =
     ''sweep('' @ NEWLINE @
     concat (map (\<lambda>v. (prefix @ INDENT) @ Exp_format fmtG (prefix @ INDENT) v @ '','' @ NEWLINE) vals)
     @ prefix @ '')''"

subsection \<open>The printer\<close>

record printer =
  buf :: string
  comments :: "string \<rightharpoonup> commentBlock list"
  lastComment :: SourceLoc

definition WriteString :: "string \<Rightarrow> printer \<Rightarrow> printer" where
  "WriteString s p = p\<lparr>buf := buf p @ s\<rparr>"

text \<open>A \<^verbatim>\<open>for _, x := range xs\<close> loop over a slice whose body may panic.\<close>

fun forEach :: "('a \<Rightarrow> 's \<Rightarrow> 's option) \<Rightarrow> 'a list \<Rightarrow> 's \<Rightarrow> 's option" where
  "forEach f [] s = Some s"
| "forEach f (x # xs) s = (case f x s of None \<Rightarrow> None | Some s' \<Rightarrow> forEach f xs s')"

text \<open>A comment slice of the pool; a missing key reads as the empty slice.\<close>

definition commentsOf :: "printer \<Rightarrow> string \<Rightarrow> commentBlock list" where
  "commentsOf p path = (case comments p path of None \<Rightarrow> [] | Some cs \<Rightarrow> cs)"

text \<open>Lines 46-56 of \<open>printComments\<close>: the node lies in another file than the last comment.\<close>

definition fileBoundary :: "printer \<Rightarrow> AstNode \<Rightarrow> printer option" where
  "fileBoundary p node =
     (case File (lastComment p) of
        None \<Rightarrow> Some p
      | Some lf \<Rightarrow>
          (case File (Loc node) of
             None \<Rightarrow> None
           | Some nf \<Rightarrow>
               if FullPath lf \<noteq> FullPath nf
               then Some (p\<lparr>buf := buf p
                               @ concat (map (\<lambda>c. cb_Value c @ NEWLINE) (commentsOf p (FullPath lf)))
                               @ ''#'' @ NEWLINE @ ''# @include '' @ DQ @ FileName nf @ DQ @ NEWLINE
                               @ ''#'' @ NEWLINE @ NEWLINE,
                            comments := (comments p)(FullPath lf := None)\<rparr>)
               else Some p))"

fun printScopeComments :: "string \<Rightarrow> commentBlock list \<Rightarrow> printer \<Rightarrow> printer" where
  "printScopeComments prefix [] p = p"
| "printScopeComments prefix (c # cs) p =
     (let p1 = (if Line (lastComment p) \<noteq> 0 \<and> Line (lastComment p) = Line (cb_Loc c) - 2
                then WriteString NEWLINE p else p);
          p2 = p1\<lparr>lastComment := cb_Loc c\<rparr>;
          p3 = WriteString (prefix @ cb_Value c @ NEWLINE) p2
      in printScopeComments prefix cs p3)"

definition printComments :: "printer \<Rightarrow> AstNode \<Rightarrow> string \<Rightarrow> printer option" where
  "printComments p node prefix =
     (case fileBoundary p node of
        None \<Rightarrow> None
      | Some p1 \<Rightarrow>
          (let p2 = printScopeComments prefix (scopeComments node) p1;
               p3 = (if scopeComments node \<noteq> [] then WriteString NEWLINE p2 else p2);
               p4 = WriteString (concat (map (\<lambda>c. prefix @ c @ NEWLINE) (Comments node))) p3
           in Some (p4\<lparr>lastComment := Loc node\<rparr>)))"

text \<open>
  \<open>DumpComments\<close> ranges over the Go map \<open>printer.comments\<close>. Go leaves the order of a
  \<open>range\<close> over a map to the runtime, which randomises it; the order the runtime takes
  is the argument \<open>order\<close>, legal when it lists every key of the map once.
\<close>

definition DumpComments :: "string list \<Rightarrow> printer \<Rightarrow> printer" where
  "DumpComments order p =
     p\<lparr>buf := buf p @ concat (map (\<lambda>k. concat (map (\<lambda>c. cb_Value c @ NEWLINE) (commentsOf p k))) order),
       comments := Map.empty\<rparr>"

definition range_order :: "string list \<Rightarrow> printer \<Rightarrow> bool" where
  "range_order order p = (distinct order \<and> set order = dom (comments p))"

subsection \<open>Bindings\<close>

record BindStm =
  bs_Node :: AstNode
  bs_Id :: string
  bs_Exp :: Exp
  bs_Sweep :: bool

record BindStms =
  bss_Node :: AstNode
  bss_List :: "BindStm list"

definition BindStm_format ::
  "(float64 \<Rightarrow> string) \<Rightarrow> string \<Rightarrow> int \<Rightarrow> BindStm \<Rightarrow> printer \<Rightarrow> printer option" where
  "BindStm_format fmtG prefix idWidth b p =
     (case printComments p (bs_Node b) (prefix @ INDENT) of
        None \<Rightarrow> None
      | Some p1 \<Rightarrow>
     (case printComments p1 (Exp_getNode (bs_Exp b)) (prefix @ INDENT) of
        None \<Rightarrow> None
      | Some p2 \<Rightarrow>
          (let idPad = (if len (bs_Id b) < idWidth
                        then replicate (nat (idWidth - len (bs_Id b))) CHR '' '' else '''');
               p3 = WriteString (prefix @ INDENT @ bs_Id b @ idPad @ '' = '') p2
           in Some (case bs_Exp b of
                      ValExp n (VArray arr) \<Rightarrow>
                        if bs_Sweep b \<and> length arr > 1
                        then WriteString ('','' @ NEWLINE)
                               (WriteString (ValExp_formatSweep fmtG (prefix @ INDENT) arr) p3)
                        else WriteString ('','' @ NEWLINE)
                               (WriteString (Exp_format fmtG (prefix @ INDENT) (bs_Exp b)) p3)
                    | _ \<Rightarrow> WriteString ('','' @ NEWLINE)
                               (WriteString (Exp_format fmtG (prefix @ INDENT) (bs_Exp b)) p3)))))"

definition bindIdWidth :: "BindStm list \<Rightarrow> int" where
  "bindIdWidth bs = fold (\<lambda>b w. if len (bs_Id b) < 30 then max w (len (bs_Id b)) else w) bs 0"

definition BindStms_format ::
  "(float64 \<Rightarrow> string) \<Rightarrow> string \<Rightarrow> BindStms \<Rightarrow> printer \<Rightarrow> printer option" where
  "BindStms_format fmtG prefix bs p =
     (case printComments p (bss_Node bs) prefix of
        None \<Rightarrow> None
      | Some p1 \<Rightarrow> forEach (BindStm_format fmtG prefix (bindIdWidth (bss_List bs))) (bss_List bs) p1)"

subsection \<open>Parameters\<close>

text \<open>
  Modelled from the spec: \<open>InParam\<close> and \<open>OutParam\<close> behind the \<open>Param\<close> interface, whose
  declarations and accessors are not under src. The spec gives a parameter a type name,
  an array-dimension count, an identifier, a help text and, for an output parameter, an
  output name; the formatter reads them through \<open>GetTname\<close>, \<open>GetArrayDim\<close>, \<open>GetId\<close>,
  \<open>GetHelp\<close> and \<open>GetOutName\<close>, the fields below, and \<open>getMode\<close> is the mode keyword
  (\<open>in\<close> or \<open>out\<close>).
\<close>

datatype ParamMode = InParam | OutParam

record Param =
  par_Node :: AstNode
  par_Mode :: ParamMode
  Tname :: string
  ArrayDim :: int
  par_Id :: string
  Help :: string
  OutName :: string

fun getMode :: "ParamMode \<Rightarrow> string" where
  "getMode InParam = ''in''"
| "getMode OutParam = ''out''"

definition paramFormat :: "int \<Rightarrow> int \<Rightarrow> int \<Rightarrow> int \<Rightarrow> Param \<Rightarrow> printer \<Rightarrow> printer option" where
  "paramFormat modeWidth typeWidth idWidth helpWidth param p =
     (case printComments p (par_Node param) INDENT of
        None \<Rightarrow> None
      | Some p1 \<Rightarrow>
     (let ident = (if par_Id param = ''default'' then '''' else par_Id param) in
      case Repeat '' '' (modeWidth - len (getMode (par_Mode param))) of
        None \<Rightarrow> None
      | Some modePad \<Rightarrow>
     (case Repeat '' '' (typeWidth - len (Tname param) - 2 * ArrayDim param) of
        None \<Rightarrow> None
      | Some typePad \<Rightarrow>
          (let idPad = (if idWidth > len ident
                        then replicate (nat (idWidth - len ident)) CHR '' '' else '''');
               helpPad = (if helpWidth > len (Help param)
                          then replicate (nat (helpWidth - len (Help param))) CHR '' '' else '''');
               s1 = INDENT @ getMode (par_Mode param) @ modePad @ '' '' @ Tname param;
               s2 = concat (replicate (nat (ArrayDim param)) ''[]'');
               s3 = (if ident \<noteq> '''' then typePad @ '' '' @ ident else '''');
               s4 = (if len (Help param) > 0
                     then (if ident = '''' then typePad @ '' '' else '''')
                          @ idPad @ ''  '' @ DQ @ Help param @ DQ
                     else '''');
               s5 = (if len (OutName param) > 0
                     then (if Help param = '''' then idPad @ ''  '' else '''')
                          @ helpPad @ ''  '' @ DQ @ OutName param @ DQ
                     else '''')
           in Some (WriteString (s1 @ s2 @ s3 @ s4 @ s5 @ '','' @ NEWLINE) p1)))))"

text \<open>
  \<open>InParams.getWidths\<close> and \<open>OutParams.getWidths\<close> are the same code on the two list
  types: one function on a parameter list, its loop body first. \<open>measureParamsWidths\<close>
  likewise.
\<close>

definition getWidths_step :: "Param \<Rightarrow> int \<times> int \<times> int \<times> int \<Rightarrow> int \<times> int \<times> int \<times> int" where
  "getWidths_step param w =
     (case w of (modeWidth, typeWidth, idWidth, helpWidth) \<Rightarrow>
        (max modeWidth (len (getMode (par_Mode param))),
         max typeWidth (len (Tname param) + 2 * ArrayDim param),
         (if len (par_Id param) < 35 then max idWidth (len (par_Id param)) else idWidth),
         (if len (Help param) < 25 then max helpWidth (len (Help param)) else helpWidth)))"

definition getWidths :: "Param list \<Rightarrow> int \<times> int \<times> int \<times> int" where
  "getWidths params = fold getWidths_step params (0, 0, 0, 0)"

definition measureParamsWidths_step ::
  "Param list \<Rightarrow> int \<times> int \<times> int \<times> int \<Rightarrow> int \<times> int \<times> int \<times> int" where
  "measureParamsWidths_step params w =
     (case w of (modeWidth, typeWidth, idWidth, helpWidth) \<Rightarrow>
        (case getWidths params of (mw, tw, iw, hw) \<Rightarrow>
           (max modeWidth mw, max typeWidth tw, max idWidth iw, max helpWidth hw)))"

definition measureParamsWidths :: "Param list list \<Rightarrow> int \<times> int \<times> int \<times> int" where
  "measureParamsWidths paramsList = fold measureParamsWidths_step paramsList (0, 0, 0, 0)"

definition Params_format :: "int \<Rightarrow> int \<Rightarrow> int \<Rightarrow> int \<Rightarrow> Param list \<Rightarrow> printer \<Rightarrow> printer option" where
  "Params_format modeWidth typeWidth idWidth helpWidth params p =
     forEach (paramFormat modeWidth typeWidth idWidth helpWidth) params p"

subsection \<open>Stages\<close>

record SrcParam =
  src_Node :: AstNode
  Lang :: string
  Path :: string
  Args :: "string list"

record Resources =
  res_Node :: AstNode
  ThreadNode :: "AstNode option"
  MemNode :: "AstNode option"
  SpecialNode :: "AstNode option"
  VolatileNode :: "AstNode option"
  Threads :: int
  MemGB :: int
  Special :: string

record RetainParam =
  rpar_Node :: AstNode
  rpar_Id :: string

record RetainParams =
  rp_Node :: AstNode
  rp_Params :: "RetainParam list"

record Stage =
  st_Node :: AstNode
  st_Id :: string
  st_InParams :: "Param list"
  st_OutParams :: "Param list"
  Src :: SrcParam
  ChunkIns :: "Param list"
  ChunkOuts :: "Param list"
  Split :: bool
  st_Resources :: "Resources option"
  st_Retain :: "RetainParams option"

text \<open>\<^verbatim>\<open>strings.Join(elems, sep)\<close>.\<close>

fun Join :: "string list \<Rightarrow> string \<Rightarrow> string" where
  "Join [] sep = ''''"
| "Join [x] sep = x"
| "Join (x # y # ys) sep = x @ sep @ Join (y # ys) sep"

definition SrcParam_format :: "int \<Rightarrow> int \<Rightarrow> int \<Rightarrow> SrcParam \<Rightarrow> printer \<Rightarrow> printer option" where
  "SrcParam_format modeWidth typeWidth idWidth src p =
     (case printComments p (src_Node src) INDENT of
        None \<Rightarrow> None
      | Some p1 \<Rightarrow>
     (case Repeat '' '' (typeWidth - len (Lang src)) of
        None \<Rightarrow> None
      | Some langPad \<Rightarrow>
     (case Repeat '' '' (modeWidth - len ''src'') of
        None \<Rightarrow> None
      | Some modePad \<Rightarrow>
          Some (WriteString (INDENT @ ''src'' @ modePad @ '' '' @ Lang src @ langPad @ '' '' @ DQ
                             @ Join (Path src # Args src) '' '' @ DQ @ '','' @ NEWLINE) p1))))"

text \<open>One optional field of the resource block: written when its location marker is set.\<close>

definition resourceField :: "AstNode option \<Rightarrow> string \<Rightarrow> printer \<Rightarrow> printer option" where
  "resourceField node line p =
     (case node of
        None \<Rightarrow> Some p
      | Some n \<Rightarrow>
          (case printComments p n INDENT of
             None \<Rightarrow> None
           | Some p1 \<Rightarrow> Some (WriteString (INDENT @ line) p1)))"

definition Resources_format :: "Resources \<Rightarrow> printer \<Rightarrow> printer option" where
  "Resources_format r p =
     (case printComments p (res_Node r) INDENT of
        None \<Rightarrow> None
      | Some p0 \<Rightarrow>
     (let p1 = WriteString ('') using ('' @ NEWLINE) p0;
          memPad = (if VolatileNode r \<noteq> None then ''  ''
                    else if SpecialNode r \<noteq> None \<or> ThreadNode r \<noteq> None then '' '' else '''');
          threadPad = (if VolatileNode r \<noteq> None then '' '' else '''')
      in
      case resourceField (MemNode r) (''mem_gb'' @ memPad @ '' = '' @ show_int (MemGB r) @ '','' @ NEWLINE) p1 of
        None \<Rightarrow> None
      | Some p2 \<Rightarrow>
     (case resourceField (SpecialNode r)
             (''special'' @ threadPad @ '' = '' @ DQ @ Special r @ DQ @ '','' @ NEWLINE) p2 of
        None \<Rightarrow> None
      | Some p3 \<Rightarrow>
     (case resourceField (ThreadNode r)
             (''threads'' @ threadPad @ '' = '' @ show_int (Threads r) @ '','' @ NEWLINE) p3 of
        None \<Rightarrow> None
      | Some p4 \<Rightarrow> resourceField (VolatileNode r) (''volatile = strict,'' @ NEWLINE) p4))))"

definition RetainParams_format :: "RetainParams \<Rightarrow> printer \<Rightarrow> printer option" where
  "RetainParams_format r p =
     (case printComments p (rp_Node r) INDENT of
        None \<Rightarrow> None
      | Some p1 \<Rightarrow>
          forEach (\<lambda>param q.
                     case printComments q (rpar_Node param) INDENT of
                       None \<Rightarrow> None
                     | Some q1 \<Rightarrow> Some (WriteString (INDENT @ rpar_Id param @ '','' @ NEWLINE) q1))
                  (rp_Params r) (WriteString ('') retain ('' @ NEWLINE) p1))"

text \<open>A call through an optional pointer that is skipped when the pointer is nil.\<close>

definition whenSome :: "'a option \<Rightarrow> ('a \<Rightarrow> 's \<Rightarrow> 's option) \<Rightarrow> 's \<Rightarrow> 's option" where
  "whenSome x f s = (case x of None \<Rightarrow> Some s | Some v \<Rightarrow> f v s)"

text \<open>
  Lines 498-501 of \<open>Stage.format\<close>: the identifier and help widths of the split block,
  from the widths measured over all four parameter lists.
\<close>

definition chunkWidths :: "Stage \<Rightarrow> int \<times> int" where
  "chunkWidths s =
     (case measureParamsWidths [st_InParams s, st_OutParams s, ChunkIns s, ChunkOuts s] of
        (modeWidth, typeWidth, idWidth, helpWidth) \<Rightarrow>
          if idWidth > 30 \<or> helpWidth > 20
          then (case measureParamsWidths [ChunkIns s, ChunkOuts s] of (mw, tw, iw, hw) \<Rightarrow> (iw, hw))
          else (idWidth, helpWidth))"

definition Stage_format :: "Stage \<Rightarrow> printer \<Rightarrow> printer option" where
  "Stage_format s p =
     (case printComments p (st_Node s) '''' of
        None \<Rightarrow> None
      | Some p0 \<Rightarrow>
     (case measureParamsWidths [st_InParams s, st_OutParams s, ChunkIns s, ChunkOuts s] of
        (modeWidth0, typeWidth, idWidth, helpWidth) \<Rightarrow>
     (let modeWidth = max modeWidth0 (len ''src'');
          p1 = WriteString (''stage '' @ st_Id s @ ''('' @ NEWLINE) p0
      in
      case Params_format modeWidth typeWidth idWidth helpWidth (st_InParams s) p1 of
        None \<Rightarrow> None
      | Some p2 \<Rightarrow>
     (case Params_format modeWidth typeWidth idWidth helpWidth (st_OutParams s) p2 of
        None \<Rightarrow> None
      | Some p3 \<Rightarrow>
     (case SrcParam_format modeWidth typeWidth idWidth (Src s) p3 of
        None \<Rightarrow> None
      | Some p4 \<Rightarrow>
     (case (if Split s
            then (case Params_format modeWidth typeWidth (fst (chunkWidths s)) (snd (chunkWidths s))
                         (ChunkIns s) (WriteString ('') split ('' @ NEWLINE) p4) of
                    None \<Rightarrow> None
                  | Some q \<Rightarrow>
                      Params_format modeWidth typeWidth (fst (chunkWidths s)) (snd (chunkWidths s))
                        (ChunkOuts s) q)
            else Some p4) of
        None \<Rightarrow> None
      | Some p5 \<Rightarrow>
     (case whenSome (st_Resources s) Resources_format p5 of
        None \<Rightarrow> None
      | Some p6 \<Rightarrow>
     (case whenSome (st_Retain s) RetainParams_format p6 of
        None \<Rightarrow> None
      | Some p7 \<Rightarrow> Some (WriteString ('')'' @ NEWLINE) p7)))))))))"

subsection \<open>Calls\<close>

record Modifiers =
  Local :: bool
  Preflight :: bool
  Volatile :: bool
  mod_Bindings :: "BindStms option"

record CallStm =
  call_Node :: AstNode
  call_Modifiers :: Modifiers
  call_Id :: string
  DecId :: string
  call_Bindings :: BindStms

text \<open>
  Modelled from the spec: the constants \<open>local\<close>, \<open>preflight\<close> and \<open>volatile\<close> that
  \<open>CallStm.format\<close> compares the bound identifiers with, declared outside src. They are
  the modifier keywords of the spec, which the grammar's \<open>modifier_stm\<close> rule stores as
  the identifier of a bound-form entry.
\<close>

definition local :: string where "local = ''local''"
definition preflight :: string where "preflight = ''preflight''"
definition volatile :: string where "volatile = ''volatile''"

text \<open>Line 405: whether the call gets a \<open>using\<close> clause.\<close>

definition hasModifiers :: "Modifiers \<Rightarrow> bool" where
  "hasModifiers m =
     ((case mod_Bindings m of None \<Rightarrow> False | Some b \<Rightarrow> length (bss_List b) > 0)
      \<or> Local m \<or> Preflight m \<or> Volatile m)"

text \<open>Lines 407-411: the bindings table, created on the call's node when it is nil.\<close>

definition modifierTable :: "CallStm \<Rightarrow> BindStms" where
  "modifierTable c =
     (case mod_Bindings (call_Modifiers c) of
        None \<Rightarrow> \<lparr>bss_Node = call_Node c, bss_List = []\<rparr>
      | Some b \<Rightarrow> b)"

definition trueBinding :: "AstNode \<Rightarrow> string \<Rightarrow> BindStm" where
  "trueBinding node ident =
     \<lparr>bs_Node = node, bs_Id = ident, bs_Exp = ValExp node (VBool True), bs_Sweep = False\<rparr>"

text \<open>
  Lines 416-450: the bound identifiers found and the bare modifiers appended in bound
  form, the list as it stands when \<^verbatim>\<open>sort.Slice\<close> is called.
\<close>

definition modifierEntries :: "CallStm \<Rightarrow> BindStm list" where
  "modifierEntries c =
     (let m = call_Modifiers c;
          tbl = modifierTable c;
          foundLocal = (\<exists>b \<in> set (bss_List tbl). bs_Id b = local);
          foundPreflight = (\<exists>b \<in> set (bss_List tbl). bs_Id b = preflight);
          foundVolatile = (\<exists>b \<in> set (bss_List tbl). bs_Id b = volatile);
          l1 = bss_List tbl
               @ (if Local m \<and> \<not> foundLocal then [trueBinding (bss_Node tbl) ''local''] else []);
          l2 = l1 @ (if Preflight m \<and> \<not> foundPreflight
                     then [trueBinding (bss_Node tbl) ''preflight''] else []);
          l3 = l2 @ (if Volatile m \<and> \<not> foundVolatile
                     then [trueBinding (bss_Node tbl) ''volatile''] else [])
      in l3)"

text \<open>
  Lines 451-453: \<^verbatim>\<open>sort.Slice\<close> with the comparison \<^verbatim>\<open>List[i].Id < List[j].Id\<close>.
  \<^verbatim>\<open>sort.Slice\<close> belongs to Go's standard library and is not a stable sort: the
  rearrangement it performs on a list of bindings under that comparison is the parameter
  \<open>sortSlice\<close> of every function below that can reach a call statement.
\<close>

type_synonym sorter = "BindStm list \<Rightarrow> BindStm list"

definition modifierBindings :: "sorter \<Rightarrow> CallStm \<Rightarrow> BindStm list" where
  "modifierBindings sortSlice c = sortSlice (modifierEntries c)"

text \<open>
  What the library documents of \<^verbatim>\<open>sort.Slice\<close>: the slice holds the same elements
  afterwards, sorted as the comparison asks, here by ascending identifier. Elements the
  comparison does not tell apart, bindings with one identifier, may come in any order.
\<close>

definition sortsById :: "sorter \<Rightarrow> bool" where
  "sortsById sortSlice \<longleftrightarrow>
     (\<forall>xs. mset (sortSlice xs) = mset xs \<and> sorted (map bs_Id (sortSlice xs)))"

text \<open>Lines 393-403: the call's head and argument bindings.\<close>

definition CallStm_formatHead ::
  "(float64 \<Rightarrow> string) \<Rightarrow> string \<Rightarrow> CallStm \<Rightarrow> printer \<Rightarrow> printer option" where
  "CallStm_formatHead fmtG prefix c p =
     (case printComments p (call_Node c) prefix of
        None \<Rightarrow> None
      | Some p1 \<Rightarrow>
          (let p2 = WriteString (prefix @ ''call '' @ DecId c
                                 @ (if call_Id c \<noteq> DecId c then '' as '' @ call_Id c else '''')
                                 @ ''('' @ NEWLINE) p1
           in case BindStms_format fmtG prefix (call_Bindings c) p2 of
                None \<Rightarrow> None
              | Some p3 \<Rightarrow> Some (WriteString prefix p3)))"

text \<open>
  \<open>CallStm.format\<close> assigns to \<open>self.Modifiers.Bindings\<close> and sorts its list in place:
  the model returns the call statement as the method leaves it.
\<close>

definition CallStm_format ::
  "(float64 \<Rightarrow> string) \<Rightarrow> sorter \<Rightarrow> string \<Rightarrow> CallStm \<Rightarrow> printer
     \<Rightarrow> (printer \<times> CallStm) option" where
  "CallStm_format fmtG sortSlice prefix c p =
     (case CallStm_formatHead fmtG prefix c p of
        None \<Rightarrow> None
      | Some p4 \<Rightarrow>
          if hasModifiers (call_Modifiers c)
          then (let tbl = (modifierTable c)\<lparr>bss_List := modifierBindings sortSlice c\<rparr> in
                case BindStms_format fmtG prefix tbl (WriteString ('') using ('' @ NEWLINE) p4) of
                  None \<Rightarrow> None
                | Some p5 \<Rightarrow>
                    Some (WriteString ('')'' @ NEWLINE) (WriteString prefix p5),
                          c\<lparr>call_Modifiers := (call_Modifiers c)\<lparr>mod_Bindings := Some tbl\<rparr>\<rparr>))
          else Some (WriteString ('')'' @ NEWLINE) p4, c))"

subsection \<open>Pipelines\<close>

record ReturnStm =
  ret_Node :: AstNode
  ret_Bindings :: BindStms

record PipelineRetains =
  pr_Node :: AstNode
  Refs :: "RefExp list"

record Pipeline =
  pl_Node :: AstNode
  pl_Id :: string
  pl_InParams :: "Param list"
  pl_OutParams :: "Param list"
  Calls :: "CallStm list"
  Ret :: ReturnStm
  pl_Retain :: "PipelineRetains option"

definition ReturnStm_format ::
  "(float64 \<Rightarrow> string) \<Rightarrow> ReturnStm \<Rightarrow> printer \<Rightarrow> printer option" where
  "ReturnStm_format fmtG r p =
     (case printComments p (ret_Node r) INDENT of
        None \<Rightarrow> None
      | Some p1 \<Rightarrow>
          (case BindStms_format fmtG INDENT (ret_Bindings r)
                  (WriteString (INDENT @ ''return ('' @ NEWLINE) p1) of
             None \<Rightarrow> None
           | Some p2 \<Rightarrow> Some (WriteString (INDENT @ '')'' @ NEWLINE) p2)))"

definition PipelineRetains_format :: "PipelineRetains \<Rightarrow> printer \<Rightarrow> printer option" where
  "PipelineRetains_format r p =
     (case printComments p (pr_Node r) INDENT of
        None \<Rightarrow> None
      | Some p1 \<Rightarrow>
          Some (WriteString (INDENT @ '')'' @ NEWLINE)
                 (WriteString (concat (map (\<lambda>ref. INDENT @ INDENT @ RefExp_format ref @ '','' @ NEWLINE)
                                           (Refs r)))
                    (WriteString (INDENT @ ''retain ('' @ NEWLINE) p1))))"

subsection \<open>The topological sort of a pipeline's calls\<close>

text \<open>
  Modelled from the spec: the data dependencies that \<open>Pipeline.topoSort\<close> (not under src)
  orders the calls by. A call depends on the calls that its bindings reference: the
  call-output references of the bound expressions, those inside arrays and maps included.
\<close>

fun Exp_callRefs :: "Exp \<Rightarrow> string list" where
  "Exp_callRefs (Ref r) = (if ref_Kind r = KindCall then [ref_Id r] else [])"
| "Exp_callRefs (ValExp n (VArray vs)) = concat (map Exp_callRefs vs)"
| "Exp_callRefs (ValExp n (VMap kvs)) = concat (map (\<lambda>kv. Exp_callRefs (snd kv)) kvs)"
| "Exp_callRefs (ValExp n v) = []"

definition call_deps :: "CallStm \<Rightarrow> string list" where
  "call_deps c = concat (map (\<lambda>b. Exp_callRefs (bs_Exp b)) (bss_List (call_Bindings c)))"

text \<open>
  Modelled from the spec: a call can be emitted when none of its references names a call
  still pending.
\<close>

definition ready :: "CallStm list \<Rightarrow> CallStm \<Rightarrow> bool" where
  "ready pending c = list_all (\<lambda>d. d \<notin> set (map call_Id pending)) (call_deps c)"

text \<open>
  Modelled from the spec: \<open>Pipeline.topoSort\<close>, which \<open>Pipeline.format\<close> calls and which is
  not under src. The spec asks for a stable topological order: a call after every call
  its bindings reference, and otherwise the declared order, so that the calls
  \<open>[STAGE_3, STAGE_1, STAGE_2, STAGE_4, STAGE_5]\<close> with \<open>STAGE_3\<close>, \<open>STAGE_4\<close> and \<open>STAGE_5\<close>
  referencing \<open>STAGE_2\<close> come out as \<open>[STAGE_1, STAGE_2, STAGE_3, STAGE_4, STAGE_5]\<close>. The
  model emits, again and again, the first pending call in declared order whose references
  have all been emitted. The spec calls a reference cycle a malformed AST and a
  programming error: \<open>None\<close>.
\<close>

function topoSort :: "CallStm list \<Rightarrow> CallStm list option" where
  "topoSort pending =
     (if pending = [] then Some []
      else (case find (ready pending) pending of
              None \<Rightarrow> None
            | Some c \<Rightarrow> map_option ((#) c) (topoSort (remove1 c pending))))"
  by pat_completeness auto
termination
proof (relation "measure length")
  show "wf (measure length)" by simp
next
  fix pending :: "CallStm list" and c
  assume "find (ready pending) pending = Some c"
  then have "c \<in> set pending"
    by (auto simp: find_Some_iff)
  then show "(remove1 c pending, pending) \<in> measure length"
    by (simp add: length_remove1) (cases pending; simp)
qed

text \<open>The equation of \<open>topoSort\<close> unfolds without end: it is applied by hand.\<close>

declare topoSort.simps [simp del]

text \<open>
  \<open>Pipeline.format\<close> sorts \<open>self.Calls\<close> in place and formats each call, which may assign
  to it: the loop returns the calls as it leaves them.
\<close>

fun formatCalls ::
  "(float64 \<Rightarrow> string) \<Rightarrow> sorter \<Rightarrow> CallStm list \<Rightarrow> printer
     \<Rightarrow> (printer \<times> CallStm list) option" where
  "formatCalls fmtG sortSlice [] p = Some (p, [])"
| "formatCalls fmtG sortSlice (c # cs) p =
     (case CallStm_format fmtG sortSlice INDENT c (WriteString NEWLINE p) of
        None \<Rightarrow> None
      | Some (p1, c') \<Rightarrow>
          (case formatCalls fmtG sortSlice cs p1 of
             None \<Rightarrow> None
           | Some (p2, cs') \<Rightarrow> Some (p2, c' # cs')))"

definition Pipeline_format ::
  "(float64 \<Rightarrow> string) \<Rightarrow> sorter \<Rightarrow> Pipeline \<Rightarrow> printer \<Rightarrow> (printer \<times> Pipeline) option" where
  "Pipeline_format fmtG sortSlice pl p =
     (case printComments p (pl_Node pl) '''' of
        None \<Rightarrow> None
      | Some p0 \<Rightarrow>
     (case measureParamsWidths [pl_InParams pl, pl_OutParams pl] of
        (modeWidth, typeWidth, idWidth, helpWidth) \<Rightarrow>
     (case Params_format modeWidth typeWidth idWidth helpWidth (pl_InParams pl)
             (WriteString (''pipeline '' @ pl_Id pl @ ''('' @ NEWLINE) p0) of
        None \<Rightarrow> None
      | Some p1 \<Rightarrow>
     (case Params_format modeWidth typeWidth idWidth helpWidth (pl_OutParams pl) p1 of
        None \<Rightarrow> None
      | Some p2 \<Rightarrow>
     (case topoSort (Calls pl) of
        None \<Rightarrow> None
      | Some ordered \<Rightarrow>
     (case formatCalls fmtG sortSlice ordered (WriteString ('')'' @ NEWLINE @ ''{'') p2) of
        None \<Rightarrow> None
      | Some (p3, calls') \<Rightarrow>
     (case ReturnStm_format fmtG (Ret pl) (WriteString NEWLINE p3) of
        None \<Rightarrow> None
      | Some p4 \<Rightarrow>
     (case whenSome (pl_Retain pl) PipelineRetains_format
             (if pl_Retain pl \<noteq> None then WriteString NEWLINE p4 else p4) of
        None \<Rightarrow> None
      | Some p5 \<Rightarrow> Some (WriteString (''}'' @ NEWLINE) p5, pl\<lparr>Calls := calls'\<rparr>)))))))))"

subsection \<open>The compilation unit\<close>

record UserType =
  ut_Node :: AstNode
  ut_Id :: string

record Include =
  inc_Node :: AstNode
  inc_Value :: string

datatype Callable = CStage Stage | CPipeline Pipeline

text \<open>
  The fields of \<open>Ast\<close> that \<open>format\<close> and \<open>JsonDumpAsts\<close> read (its declaration is not
  under src). \<open>Callables\<close> is \<open>Callables.List\<close>. Modelled from the spec: \<open>Files\<close> is the set
  of source files the unit touches, held as a list without an order of its own (see
  \<open>choices\<close> below).
\<close>

record Ast =
  Files :: "SourceFile list"
  ast_comments :: "commentBlock list"
  Includes :: "Include list"
  UserTypes :: "UserType list"
  Stages :: "Stage list"
  Pipelines :: "Pipeline list"
  Callables :: "Callable list"
  Call :: "CallStm option"

definition UserType_format :: "UserType \<Rightarrow> printer \<Rightarrow> printer option" where
  "UserType_format t p =
     (case printComments p (ut_Node t) '''' of
        None \<Rightarrow> None
      | Some p1 \<Rightarrow> Some (WriteString (''filetype '' @ ut_Id t @ '';'' @ NEWLINE) p1))"

definition Callable_format ::
  "(float64 \<Rightarrow> string) \<Rightarrow> sorter \<Rightarrow> Callable \<Rightarrow> printer \<Rightarrow> (printer \<times> Callable) option" where
  "Callable_format fmtG sortSlice callable p =
     (case callable of
        CStage s \<Rightarrow> (case Stage_format s p of None \<Rightarrow> None | Some q \<Rightarrow> Some (q, CStage s))
      | CPipeline pl \<Rightarrow>
          (case Pipeline_format fmtG sortSlice pl p of
             None \<Rightarrow> None
           | Some (q, pl') \<Rightarrow> Some (q, CPipeline pl')))"

fun formatCallables ::
  "(float64 \<Rightarrow> string) \<Rightarrow> sorter \<Rightarrow> nat \<Rightarrow> Callable list \<Rightarrow> printer
     \<Rightarrow> (printer \<times> Callable list) option" where
  "formatCallables fmtG sortSlice i [] p = Some (p, [])"
| "formatCallables fmtG sortSlice i (c # cs) p =
     (case Callable_format fmtG sortSlice c (if i \<noteq> 0 then WriteString NEWLINE p else p) of
        None \<Rightarrow> None
      | Some (p1, c') \<Rightarrow>
          (case formatCallables fmtG sortSlice (i + 1) cs p1 of
             None \<Rightarrow> None
           | Some (p2, cs') \<Rightarrow> Some (p2, c' # cs')))"

definition Callables_format ::
  "(float64 \<Rightarrow> string) \<Rightarrow> sorter \<Rightarrow> Callable list \<Rightarrow> printer
     \<Rightarrow> (printer \<times> Callable list) option" where
  "Callables_format fmtG sortSlice cs p = formatCallables fmtG sortSlice 0 cs p"

text \<open>
  Lines 610-612 of \<open>Ast.format\<close>: from a file up its first include site to the file that
  nothing includes. A site without a file ends the walk with the nil pointer.
\<close>

fun topFileOf :: "SourceFile \<Rightarrow> SourceFile option" where
  "topFileOf (SourceFile n path []) = Some (SourceFile n path [])"
| "topFileOf (SourceFile n path (SourceLoc l None # sites)) = None"
| "topFileOf (SourceFile n path (SourceLoc l (Some f) # sites)) = topFileOf f"

text \<open>
  What the Go runtime chooses during one run of \<open>Ast.format\<close>: the element that the
  \<open>range\<close> over \<open>self.Files\<close> yields first (an index into \<open>Files\<close>; an index past the end
  reads as the first element), and the order of the \<open>range\<close> in \<open>DumpComments\<close>.
\<close>

record choices =
  firstFile :: nat
  dumpOrder :: "string list"

definition initialLastComment :: "choices \<Rightarrow> Ast \<Rightarrow> SourceLoc" where
  "initialLastComment ch ast =
     (case Files ast of
        [] \<Rightarrow> SourceLoc 0 None
      | f # fs \<Rightarrow>
          SourceLoc 0 (topFileOf (if firstFile ch < length (Files ast)
                                  then Files ast ! firstFile ch else f)))"

text \<open>Lines 619-623: the comment pool by file path; a comment without a file panics.\<close>

fun poolComments ::
  "commentBlock list \<Rightarrow> (string \<rightharpoonup> commentBlock list) \<Rightarrow> (string \<rightharpoonup> commentBlock list) option" where
  "poolComments [] m = Some m"
| "poolComments (c # cs) m =
     (case File (cb_Loc c) of
        None \<Rightarrow> None
      | Some f \<Rightarrow>
          poolComments cs
            (m(FullPath f \<mapsto> (case m (FullPath f) of None \<Rightarrow> [] | Some old \<Rightarrow> old) @ [c])))"

definition Include_format :: "Include \<Rightarrow> printer \<Rightarrow> printer option" where
  "Include_format directive p =
     (case printComments p (inc_Node directive) '''' of
        None \<Rightarrow> None
      | Some p1 \<Rightarrow> Some (WriteString (''@include '' @ DQ @ inc_Value directive @ DQ @ NEWLINE) p1))"

text \<open>
  \<open>Ast.format\<close> up to the call of \<open>DumpComments\<close>: the printer, and the callables and the
  top-level call as formatting leaves them (the nodes it assigns to).
\<close>

definition Ast_formatNodes ::
  "(float64 \<Rightarrow> string) \<Rightarrow> sorter \<Rightarrow> choices \<Rightarrow> bool \<Rightarrow> Ast
     \<Rightarrow> (printer \<times> Callable list \<times> CallStm option) option" where
  "Ast_formatNodes fmtG sortSlice ch writeIncludes ast =
     (case poolComments (ast_comments ast) Map.empty of
        None \<Rightarrow> None
      | Some pool \<Rightarrow>
     (let p0 = \<lparr>buf = '''', comments = pool, lastComment = initialLastComment ch ast\<rparr> in
      case (if writeIncludes then forEach Include_format (Includes ast) p0 else Some p0) of
        None \<Rightarrow> None
      | Some p1 \<Rightarrow>
     (let needSpacer1 = (writeIncludes \<and> Includes ast \<noteq> []);
          needSpacer2 = (needSpacer1 \<or> UserTypes ast \<noteq> [])
      in
      case forEach UserType_format (UserTypes ast)
             (if needSpacer1 \<and> length (UserTypes ast) > 0 then WriteString NEWLINE p1 else p1) of
        None \<Rightarrow> None
      | Some p2 \<Rightarrow>
     (case Callables_format fmtG sortSlice (Callables ast)
             (if needSpacer2 \<and> length (Callables ast) > 0 then WriteString NEWLINE p2 else p2) of
        None \<Rightarrow> None
      | Some (p3, callables') \<Rightarrow>
     (case Call ast of
        None \<Rightarrow> Some (p3, callables', None)
      | Some c \<Rightarrow>
          (case CallStm_format fmtG sortSlice '''' c
                  (if length (Callables ast) > 0 \<or> needSpacer2 then WriteString NEWLINE p3 else p3) of
             None \<Rightarrow> None
           | Some (p4, c') \<Rightarrow> Some (p4, callables', Some c')))))))"

definition Ast_format ::
  "(float64 \<Rightarrow> string) \<Rightarrow> sorter \<Rightarrow> choices \<Rightarrow> bool \<Rightarrow> Ast
     \<Rightarrow> (string \<times> Callable list \<times> CallStm option) option" where
  "Ast_format fmtG sortSlice ch writeIncludes ast =
     (case Ast_formatNodes fmtG sortSlice ch writeIncludes ast of
        None \<Rightarrow> None
      | Some (p, callables', call') \<Rightarrow> Some (buf (DumpComments (dumpOrder ch) p), callables', call'))"

text \<open>
  The choices the runtime can make on an AST: any file first, and any order of the keys
  left in the comment pool when \<open>DumpComments\<close> runs.
\<close>

definition legal_choices ::
  "(float64 \<Rightarrow> string) \<Rightarrow> sorter \<Rightarrow> choices \<Rightarrow> bool \<Rightarrow> Ast \<Rightarrow> bool" where
  "legal_choices fmtG sortSlice ch writeIncludes ast =
     ((Files ast = [] \<or> firstFile ch < length (Files ast))
      \<and> (case Ast_formatNodes fmtG sortSlice ch writeIncludes ast of
            None \<Rightarrow> True
          | Some (p, callables', call') \<Rightarrow> range_order (dumpOrder ch) p))"

subsection \<open>Units as the parser builds them\<close>

text \<open>The path of a node's file, and of the file the printer saw last.\<close>

definition nodePath :: "AstNode \<Rightarrow> string option" where
  "nodePath n = map_option FullPath (File (Loc n))"

definition lastPath :: "printer \<Rightarrow> string option" where
  "lastPath p = map_option FullPath (File (lastComment p))"

text \<open>
  The comments pooled under the path \<open>k\<close> need no \<open>DumpComments\<close> to decide their place:
  the pool has no entry for \<open>k\<close>, or \<open>k\<close> is the file of the node printed last.
\<close>

definition flushed :: "string \<Rightarrow> printer \<Rightarrow> bool" where
  "flushed k p \<longleftrightarrow> comments p k = None \<or> lastPath p = Some k"

text \<open>
  The printer \<open>q\<close> comes after the printer \<open>p\<close> in a run: the text written so far is
  kept, and the comments that were flushed stay flushed.
\<close>

definition follows :: "printer \<Rightarrow> printer \<Rightarrow> bool" where
  "follows p q \<longleftrightarrow> (\<exists>t. buf q = buf p @ t) \<and> (\<forall>k. flushed k p \<longrightarrow> flushed k q)"

fun Callable_Node :: "Callable \<Rightarrow> AstNode" where
  "Callable_Node (CStage s) = st_Node s"
| "Callable_Node (CPipeline pl) = pl_Node pl"

text \<open>
  The nodes of the top-level statements that \<open>Ast.format\<close> prints: the include
  directives when they are written, the file types, the callables and the call.
\<close>

definition declNodes :: "bool \<Rightarrow> Ast \<Rightarrow> AstNode list" where
  "declNodes writeIncludes ast =
     (if writeIncludes then map inc_Node (Includes ast) else [])
     @ map ut_Node (UserTypes ast)
     @ map Callable_Node (Callables ast)
     @ (case Call ast of None \<Rightarrow> [] | Some c \<Rightarrow> [call_Node c])"


definition commentsDeclared :: "bool \<Rightarrow> Ast \<Rightarrow> bool" where
  "commentsDeclared writeIncludes ast =
     list_all (\<lambda>c. case File (cb_Loc c) of
                      None \<Rightarrow> False
                    | Some f \<Rightarrow> Some (FullPath f) \<in> set (map nodePath (declNodes writeIncludes ast)))
              (ast_comments ast)"

subsection \<open>The bulk export\<close>

record JsonDump =
  jd_UserTypes :: "string \<rightharpoonup> UserType"
  jd_Stages :: "string \<rightharpoonup> Stage"
  jd_Pipelines :: "string \<rightharpoonup> Pipeline"

text \<open>Lines 717-733 of \<open>JsonDumpAsts\<close>: the three maps, filled AST by AST.\<close>

definition dumpAst :: "Ast \<Rightarrow> JsonDump \<Rightarrow> JsonDump" where
  "dumpAst ast jd =
     (let jd1 = fold (\<lambda>t d. d\<lparr>jd_UserTypes := (jd_UserTypes d)(ut_Id t \<mapsto> t)\<rparr>) (UserTypes ast) jd;
          jd2 = fold (\<lambda>stage d. d\<lparr>jd_Stages := (jd_Stages d)(st_Id stage \<mapsto> stage)\<rparr>) (Stages ast) jd1
      in fold (\<lambda>pipeline d. d\<lparr>jd_Pipelines := (jd_Pipelines d)(pl_Id pipeline \<mapsto> pipeline)\<rparr>)
              (Pipelines ast) jd2)"

definition JsonDump_of :: "Ast list \<Rightarrow> JsonDump" where
  "JsonDump_of asts =
     fold dumpAst asts \<lparr>jd_UserTypes = Map.empty, jd_Stages = Map.empty, jd_Pipelines = Map.empty\<rparr>"

text \<open>
  \<^verbatim>\<open>json.MarshalIndent\<close> belongs to Go's standard library: the parameter \<open>marshal\<close>, which
  gives the text or the error's message.
\<close>

definition JsonDumpAsts :: "(JsonDump \<Rightarrow> string + string) \<Rightarrow> Ast list \<Rightarrow> string" where
  "JsonDumpAsts marshal asts =
     (case marshal (JsonDump_of asts) of
        Inr jsonBytes \<Rightarrow> jsonBytes
      | Inl err \<Rightarrow> ''{ error: '' @ DQ @ err @ DQ @ '' }'')"

subsection \<open>What formatting leaves in the AST\<close>

text \<open>
  The call statement after \<open>CallStm.format\<close>, a callable after \<open>Callable.format\<close>: the
  assignments of lines 407-453 and of \<open>topoSort\<close>, without the printer.
\<close>

definition formattedCall :: "sorter \<Rightarrow> CallStm \<Rightarrow> CallStm" where
  "formattedCall sortSlice c =
     (if hasModifiers (call_Modifiers c)
      then c\<lparr>call_Modifiers :=
               (call_Modifiers c)\<lparr>mod_Bindings :=
                  Some ((modifierTable c)\<lparr>bss_List := modifierBindings sortSlice c\<rparr>)\<rparr>\<rparr>
      else c)"

fun formattedCallable :: "sorter \<Rightarrow> Callable \<Rightarrow> Callable option" where
  "formattedCallable sortSlice (CStage s) = Some (CStage s)"
| "formattedCallable sortSlice (CPipeline pl) =
     (case topoSort (Calls pl) of
        None \<Rightarrow> None
      | Some ordered \<Rightarrow> Some (CPipeline (pl\<lparr>Calls := map (formattedCall sortSlice) ordered\<rparr>)))"

subsection \<open>Orders of calls\<close>

text \<open>The first line of a call statement, after the indent (lines 395-401).\<close>

definition callHead :: "CallStm \<Rightarrow> string" where
  "callHead c =
     ''call '' @ DecId c @ (if call_Id c \<noteq> DecId c then '' as '' @ call_Id c else '''')
     @ ''('' @ NEWLINE"

text \<open>Every call of the list comes after the calls of the list that it references.\<close>

fun dep_ordered :: "CallStm list \<Rightarrow> bool" where
  "dep_ordered [] = True"
| "dep_ordered (c # cs) = (ready (c # cs) c \<and> dep_ordered cs)"

text \<open>\<open>a\<close> stands in the list before the first occurrence of \<open>b\<close>.\<close>

definition emitted_before :: "CallStm list \<Rightarrow> CallStm \<Rightarrow> CallStm \<Rightarrow> bool" where
  "emitted_before cs a b = (a \<in> set (takeWhile (\<lambda>c. c \<noteq> b) cs))"

subsection \<open>Widths of a group of parameters\<close>

text \<open>The identifier and help lengths that may widen a shared column.\<close>

definition idLengths :: "Param list \<Rightarrow> int set" where
  "idLengths ps = {len (par_Id p) | p. p \<in> set ps \<and> len (par_Id p) < 35}"

definition helpLengths :: "Param list \<Rightarrow> int set" where
  "helpLengths ps = {len (Help p) | p. p \<in> set ps \<and> len (Help p) < 25}"

definition modeWidthOf :: "int \<times> int \<times> int \<times> int \<Rightarrow> int" where
  "modeWidthOf w = (case w of (modeWidth, typeWidth, idWidth, helpWidth) \<Rightarrow> modeWidth)"

definition typeWidthOf :: "int \<times> int \<times> int \<times> int \<Rightarrow> int" where
  "typeWidthOf w = (case w of (modeWidth, typeWidth, idWidth, helpWidth) \<Rightarrow> typeWidth)"

definition idWidthOf :: "int \<times> int \<times> int \<times> int \<Rightarrow> int" where
  "idWidthOf w = (case w of (modeWidth, typeWidth, idWidth, helpWidth) \<Rightarrow> idWidth)"

definition helpWidthOf :: "int \<times> int \<times> int \<times> int \<Rightarrow> int" where
  "helpWidthOf w = (case w of (modeWidth, typeWidth, idWidth, helpWidth) \<Rightarrow> helpWidth)"

subsection \<open>Sample inputs\<close>

text \<open>The pipeline of \<open>TestFormatTopoSort\<close> (formatter_test.go), file \<open>test\<close>.\<close>

definition testFile :: SourceFile where
  "testFile = SourceFile ''test'' ''/test'' []"

definition node :: "int \<Rightarrow> AstNode" where
  "node l = \<lparr>Loc = SourceLoc l (Some testFile), scopeComments = [], Comments = []\<rparr>"

definition selfRef :: "int \<Rightarrow> string \<Rightarrow> Exp" where
  "selfRef l i = Ref \<lparr>ref_Node = node l, ref_Kind = KindSelf, ref_Id = i, OutputId = ''''\<rparr>"

definition callRef :: "int \<Rightarrow> string \<Rightarrow> string \<Rightarrow> Exp" where
  "callRef l i out = Ref \<lparr>ref_Node = node l, ref_Kind = KindCall, ref_Id = i, OutputId = out\<rparr>"

definition bind :: "int \<Rightarrow> string \<Rightarrow> Exp \<Rightarrow> BindStm" where
  "bind l i e = \<lparr>bs_Node = node l, bs_Id = i, bs_Exp = e, bs_Sweep = False\<rparr>"

definition noModifiers :: Modifiers where
  "noModifiers = \<lparr>Local = False, Preflight = False, Volatile = False, mod_Bindings = None\<rparr>"

definition mkCall :: "int \<Rightarrow> string \<Rightarrow> string \<Rightarrow> BindStm list \<Rightarrow> CallStm" where
  "mkCall l i dec bs =
     \<lparr>call_Node = node l, call_Modifiers = noModifiers, call_Id = i, DecId = dec,
      call_Bindings = \<lparr>bss_Node = node l, bss_List = bs\<rparr>\<rparr>"

definition STAGE_3 :: CallStm where
  "STAGE_3 = mkCall 7 ''STAGE_3'' ''STAGE_3''
     [bind 8 ''in1'' (selfRef 8 ''input''), bind 9 ''in2'' (callRef 9 ''STAGE_2'' ''output'')]"

definition STAGE_1 :: CallStm where
  "STAGE_1 = mkCall 12 ''STAGE_1'' ''STAGE'' [bind 13 ''input'' (selfRef 13 ''input'')]"

definition STAGE_2 :: CallStm where
  "STAGE_2 = mkCall 16 ''STAGE_2'' ''STAGE'' [bind 17 ''input'' (selfRef 17 ''input'')]"

definition STAGE_4 :: CallStm where
  "STAGE_4 = mkCall 20 ''STAGE_4'' ''STAGE'' [bind 21 ''input'' (callRef 21 ''STAGE_2'' ''output'')]"

definition STAGE_5 :: CallStm where
  "STAGE_5 = mkCall 24 ''STAGE_5'' ''STAGE_3''
     [bind 25 ''in1'' (selfRef 25 ''input''), bind 26 ''in2'' (callRef 26 ''STAGE_2'' ''output'')]"

definition declaredCalls :: "CallStm list" where
  "declaredCalls = [STAGE_3, STAGE_1, STAGE_2, STAGE_4, STAGE_5]"

definition canonicalCalls :: "CallStm list" where
  "canonicalCalls = [STAGE_1, STAGE_2, STAGE_3, STAGE_4, STAGE_5]"

text \<open>A rendering of floats for inputs without a float literal.\<close>

definition noFloat :: "float64 \<Rightarrow> string" where
  "noFloat f = ''''"

definition emptyPrinter :: printer where
  "emptyPrinter = \<lparr>buf = '''', comments = Map.empty, lastComment = SourceLoc 0 (Some testFile)\<rparr>"

text \<open>
  \<^verbatim>\<open>call local preflight MAP_EXAMPLE(foo = 1,) using (volatile = false, disabled = ADD_KEY3.disable_example, local = false,)\<close>
\<close>

definition modifiedCall :: CallStm where
  "modifiedCall =
     \<lparr>call_Node = node 1,
      call_Modifiers =
        \<lparr>Local = True, Preflight = True, Volatile = False,
         mod_Bindings = Some \<lparr>bss_Node = node 3, bss_List =
           [bind 4 ''volatile'' (ValExp (node 4) (VBool False)),
            bind 5 ''disabled'' (callRef 5 ''ADD_KEY3'' ''disable_example''),
            bind 6 ''local'' (ValExp (node 6) (VBool False))]\<rparr>\<rparr>,
      call_Id = ''MAP_EXAMPLE'', DecId = ''MAP_EXAMPLE'',
      call_Bindings = \<lparr>bss_Node = node 1, bss_List = [bind 2 ''foo'' (ValExp (node 2) (VInt 1))]\<rparr>\<rparr>"

text \<open>\<^verbatim>\<open>call local STAGE(input = 1,)\<close>, alone in a file.\<close>

definition localCall :: CallStm where
  "localCall =
     \<lparr>call_Node = node 1,
      call_Modifiers = \<lparr>Local = True, Preflight = False, Volatile = False, mod_Bindings = None\<rparr>,
      call_Id = ''STAGE'', DecId = ''STAGE'',
      call_Bindings = \<lparr>bss_Node = node 1, bss_List = [bind 2 ''input'' (ValExp (node 2) (VInt 1))]\<rparr>\<rparr>"

definition localAst :: Ast where
  "localAst = \<lparr>Files = [testFile], ast_comments = [], Includes = [], UserTypes = [], Stages = [],
                Pipelines = [], Callables = [], Call = Some localCall\<rparr>"

definition someChoices :: choices where
  "someChoices = \<lparr>firstFile = 0, dumpOrder = []\<rparr>"

text \<open>The sweep of \<open>TestFormatCommentedSrc\<close>, and a sweep with one alternative.\<close>

definition sweepBinding :: BindStm where
  "sweepBinding =
     \<lparr>bs_Node = node 1, bs_Id = ''value'',
      bs_Exp = ValExp (node 1) (VArray [ValExp (node 2) (VString ''four''), ValExp (node 3) (VString ''feir'')]),
      bs_Sweep = True\<rparr>"

definition singleSweepBinding :: BindStm where
  "singleSweepBinding =
     \<lparr>bs_Node = node 1, bs_Id = ''value'',
      bs_Exp = ValExp (node 1) (VArray [ValExp (node 1) (VString ''four'')]),
      bs_Sweep = True\<rparr>"

text \<open>A stage whose primary identifier column is wider than 30 characters.\<close>

definition mkParam :: "ParamMode \<Rightarrow> string \<Rightarrow> string \<Rightarrow> string \<Rightarrow> Param" where
  "mkParam m t i h =
     \<lparr>par_Node = node 1, par_Mode = m, Tname = t, ArrayDim = 0, par_Id = i, Help = h, OutName = ''''\<rparr>"

definition wideStage :: Stage where
  "wideStage =
     \<lparr>st_Node = node 1, st_Id = ''WIDE'',
      st_InParams = [mkParam InParam ''int'' ''a_parameter_with_a_very_long_name'' ''''],
      st_OutParams = [mkParam OutParam ''int'' ''an_identifier_of_more_than_35_characters'' ''sum''],
      Src = \<lparr>src_Node = node 1, Lang = ''py'', Path = ''stages/wide'', Args = []\<rparr>,
      ChunkIns = [mkParam InParam ''int'' ''chunk'' ''one chunk''],
      ChunkOuts = [mkParam OutParam ''int'' ''part'' ''''],
      Split = True, st_Resources = None, st_Retain = None\<rparr>"

text \<open>The pipeline of \<open>TestFormatTopoSort\<close> and its compilation unit.\<close>

definition PIPELINE :: Pipeline where
  "PIPELINE =
     \<lparr>pl_Node = node 1, pl_Id = ''PIPELINE'',
      pl_InParams = [mkParam InParam ''int'' ''input'' ''''],
      pl_OutParams = [mkParam OutParam ''int'' ''output1'' '''', mkParam OutParam ''int'' ''output2'' ''''],
      Calls = declaredCalls,
      Ret = \<lparr>ret_Node = node 28, ret_Bindings = \<lparr>bss_Node = node 28, bss_List =
              [bind 29 ''output1'' (callRef 29 ''STAGE_3'' ''output''),
               bind 30 ''output2'' (callRef 30 ''STAGE_5'' ''output'')]\<rparr>\<rparr>,
      pl_Retain = None\<rparr>"


definition pipelineAst :: Ast where
  "pipelineAst =
     \<lparr>Files = [testFile], ast_comments = [], Includes = [], UserTypes = [], Stages = [],
      Pipelines = [PIPELINE], Callables = [CPipeline PIPELINE], Call = None\<rparr>"

text \<open>
  A unit that declares the file type \<open>json\<close>, the stage \<open>WIDE\<close> and the pipeline
  \<open>PIPELINE\<close> on line \<open>l\<close>.
\<close>

definition declaringAst :: "int \<Rightarrow> Ast" where
  "declaringAst l =
     \<lparr>Files = [testFile], ast_comments = [], Includes = [],
      UserTypes = [\<lparr>ut_Node = node l, ut_Id = ''json''\<rparr>],
      Stages = [wideStage\<lparr>st_Node := node l\<rparr>],
      Pipelines = [PIPELINE\<lparr>pl_Node := node l\<rparr>],
      Callables = [CStage (wideStage\<lparr>st_Node := node l\<rparr>), CPipeline (PIPELINE\<lparr>pl_Node := node l\<rparr>)],
      Call = None\<rparr>"

text \<open>A marshalling that succeeds, for the sample export.\<close>

definition marshalNothing :: "JsonDump \<Rightarrow> string + string" where
  "marshalNothing jd = Inr ''{}''"

text \<open>A unit with nothing but one unattached comment in each of two files.\<close>

definition fileA :: SourceFile where
  "fileA = SourceFile ''a.mro'' ''/a.mro'' []"

definition fileB :: SourceFile where
  "fileB = SourceFile ''b.mro'' ''/a/b.mro'' [SourceLoc 1 (Some fileA)]"

definition commentsAst :: Ast where
  "commentsAst =
     \<lparr>Files = [fileA, fileB],
      ast_comments = [\<lparr>cb_Loc = SourceLoc 3 (Some fileA), cb_Value = ''# end of a''\<rparr>,
                      \<lparr>cb_Loc = SourceLoc 5 (Some fileB), cb_Value = ''# end of b''\<rparr>],
      Includes = [], UserTypes = [], Stages = [], Pipelines = [], Callables = [], Call = None\<rparr>"

definition orderAB :: choices where
  "orderAB = \<lparr>firstFile = 0, dumpOrder = [''/a.mro'', ''/a/b.mro'']\<rparr>"

definition orderBA :: choices where
  "orderBA = \<lparr>firstFile = 0, dumpOrder = [''/a/b.mro'', ''/a.mro'']\<rparr>"

text \<open>
  Two rearrangements that sort by identifier: the insertion sort, which keeps bindings
  with one identifier in their order, and the insertion sort of the reversed list, which
  reverses them.
\<close>

definition stableSort :: sorter where
  "stableSort xs = sort_key bs_Id xs"

definition reversingSort :: sorter where
  "reversingSort xs = sort_key bs_Id (rev xs)"

text \<open>\<^verbatim>\<open>call STAGE(input = 1,) using (local = true, local = false,)\<close>\<close>

definition repeatedCall :: CallStm where
  "repeatedCall =
     \<lparr>call_Node = node 1,
      call_Modifiers =
        \<lparr>Local = False, Preflight = False, Volatile = False,
         mod_Bindings = Some \<lparr>bss_Node = node 3, bss_List =
           [bind 4 ''local'' (ValExp (node 4) (VBool True)),
            bind 5 ''local'' (ValExp (node 5) (VBool False))]\<rparr>\<rparr>,
      call_Id = ''STAGE'', DecId = ''STAGE'',
      call_Bindings = \<lparr>bss_Node = node 1, bss_List = [bind 2 ''input'' (ValExp (node 2) (VInt 1))]\<rparr>\<rparr>"

text \<open>
  A stage whose in and out parameters have one-letter identifiers, split with a chunk
  parameter of 23 letters.
\<close>

definition chunkyStage :: Stage where
  "chunkyStage =
     \<lparr>st_Node = node 1, st_Id = ''CHUNKY'',
      st_InParams = [mkParam InParam ''int'' ''a'' ''help''],
      st_OutParams = [mkParam OutParam ''int'' ''b'' ''''],
      Src = \<lparr>src_Node = node 1, Lang = ''py'', Path = ''stages/chunky'', Args = []\<rparr>,
      ChunkIns = [mkParam InParam ''int'' ''a_long_chunk_identifier'' ''''],
      ChunkOuts = [],
      Split = True, st_Resources = None, st_Retain = None\<rparr>"

text \<open>The canonical text of the two sample stages.\<close>

definition formattedCHUNKY :: string where
  "formattedCHUNKY =
     ''stage CHUNKY('' @ NEWLINE
     @ ''    in  int a'' @ replicate 22 CHR '' '' @ ''  '' @ DQ @ ''help'' @ DQ @ '','' @ NEWLINE
     @ ''    out int b,'' @ NEWLINE
     @ ''    src py  '' @ DQ @ ''stages/chunky'' @ DQ @ '','' @ NEWLINE
     @ '') split ('' @ NEWLINE
     @ ''    in  int a_long_chunk_identifier,'' @ NEWLINE
     @ '')'' @ NEWLINE"

definition formattedWIDE :: string where
  "formattedWIDE =
     ''stage WIDE('' @ NEWLINE
     @ ''    in  int a_parameter_with_a_very_long_name,'' @ NEWLINE
     @ ''    out int an_identifier_of_more_than_35_characters  '' @ DQ @ ''sum'' @ DQ @ '','' @ NEWLINE
     @ ''    src py  '' @ DQ @ ''stages/wide'' @ DQ @ '','' @ NEWLINE
     @ '') split ('' @ NEWLINE
     @ ''    in  int chunk  '' @ DQ @ ''one chunk'' @ DQ @ '','' @ NEWLINE
     @ ''    out int part,'' @ NEWLINE
     @ '')'' @ NEWLINE"




subsection \<open>Bare modifiers\<close>

text \<open>The keyword \<open>k\<close> stands after \<open>call\<close> as a bare modifier.\<close>

definition bareModifier :: "Modifiers \<Rightarrow> string \<Rightarrow> bool" where
  "bareModifier m k =
     (k = ''local'' \<and> Local m \<or> k = ''preflight'' \<and> Preflight m \<or> k = ''volatile'' \<and> Volatile m)"

section \<open>Properties\<close>

subsection \<open>The nodes that the methods return\<close>

lemma CallStm_format_result:
  "CallStm_format fmtG srt prefix c p = Some (q, c') \<Longrightarrow> c' = formattedCall srt c"
  by (auto simp: CallStm_format_def formattedCall_def Let_def split: option.splits if_splits)

lemma formatCalls_result:
  "formatCalls fmtG srt cs p = Some (q, cs') \<Longrightarrow> cs' = map (formattedCall srt) cs"
proof (induction cs arbitrary: p q cs')
  case Nil
  then show ?case by simp
next
  case (Cons c cs)
  from Cons.prems obtain p1 c1 p2 cs1 where
    c: "CallStm_format fmtG srt INDENT c (WriteString NEWLINE p) = Some (p1, c1)"
    and r: "formatCalls fmtG srt cs p1 = Some (p2, cs1)" and e: "cs' = c1 # cs1"
    by (auto split: option.splits)
  from CallStm_format_result[OF c] Cons.IH[OF r] e show ?case by simp
qed

lemma Pipeline_format_result:
  "Pipeline_format fmtG srt pl p = Some (q, pl') \<Longrightarrow> formattedCallable srt (CPipeline pl) = Some (CPipeline pl')"
  by (auto simp: Pipeline_format_def Let_def split: option.splits prod.splits dest: formatCalls_result)

lemma Callable_format_result:
  "Callable_format fmtG srt c p = Some (q, c') \<Longrightarrow> formattedCallable srt c = Some c'"
proof (cases c)
  case (CStage s)
  assume "Callable_format fmtG srt c p = Some (q, c')"
  with CStage show ?thesis by (auto simp: Callable_format_def split: option.splits)
next
  case (CPipeline pl)
  assume "Callable_format fmtG srt c p = Some (q, c')"
  with CPipeline obtain pl' where "Pipeline_format fmtG srt pl p = Some (q, pl')" "c' = CPipeline pl'"
    by (auto simp: Callable_format_def split: option.splits)
  with CPipeline Pipeline_format_result show ?thesis by blast
qed

lemma formatCallables_result:
  "formatCallables fmtG srt i cs p = Some (q, cs') \<Longrightarrow> map (formattedCallable srt) cs = map Some cs'"
proof (induction cs arbitrary: i p q cs')
  case Nil
  then show ?case by simp
next
  case (Cons c cs)
  from Cons.prems obtain p1 c1 p2 cs1 where
    c: "Callable_format fmtG srt c (if i \<noteq> 0 then WriteString NEWLINE p else p) = Some (p1, c1)"
    and r: "formatCallables fmtG srt (i + 1) cs p1 = Some (p2, cs1)" and e: "cs' = c1 # cs1"
    by (auto split: option.splits)
  from Callable_format_result[OF c] Cons.IH[OF r] e show ?case by simp
qed

lemma Ast_formatNodes_result:
  "Ast_formatNodes fmtG srt ch w ast = Some (p, callables', call')
    \<Longrightarrow> map (formattedCallable srt) (Callables ast) = map Some callables'
        \<and> call' = map_option (formattedCall srt) (Call ast)"
  by (auto simp: Ast_formatNodes_def Callables_format_def Let_def
        split: option.splits prod.splits
        dest: formatCallables_result CallStm_format_result)

subsection \<open>What the printer keeps\<close>

text \<open>
  Every method writes at the end of the buffer and takes comments out of the pool only
  at a file boundary: each printer of a run \<open>follows\<close> the one before it.
\<close>

lemma follows_refl: "follows p p"
  by (simp add: follows_def)

lemma follows_trans: "follows p q \<Longrightarrow> follows q r \<Longrightarrow> follows p r"
  by (auto simp: follows_def)

lemma flushed_WriteString [simp]: "flushed k (WriteString s p) = flushed k p"
  by (simp add: flushed_def WriteString_def lastPath_def)

lemma follows_WriteString: "follows p q \<Longrightarrow> follows p (WriteString s q)"
  by (auto simp: follows_def WriteString_def flushed_def lastPath_def)

lemma printScopeComments_buf:
  "\<exists>t. buf (printScopeComments prefix cs p) = buf p @ t"
proof (induction cs arbitrary: p)
  case Nil
  show ?case by simp
next
  case (Cons c cs)
  show ?case
    using Cons[of "WriteString (prefix @ cb_Value c @ NEWLINE)
       ((if Line (lastComment p) \<noteq> 0 \<and> Line (lastComment p) = Line (cb_Loc c) - 2
                then WriteString NEWLINE p else p)\<lparr>lastComment := cb_Loc c\<rparr>)"]
    by (auto simp: Let_def WriteString_def)
qed

lemma printScopeComments_comments [simp]:
  "comments (printScopeComments prefix cs p) = comments p"
  by (induction cs arbitrary: p) (auto simp: Let_def WriteString_def)

lemma fileBoundary_follows:
  assumes "fileBoundary p n = Some q"
  shows "(\<exists>t. buf q = buf p @ t)"
    and "flushed k p \<or> nodePath n = Some k \<Longrightarrow> comments q k = None \<or> nodePath n = Some k"
    and "lastPath p \<noteq> None \<Longrightarrow> nodePath n \<noteq> None"
  using assms
  by (auto simp: fileBoundary_def flushed_def lastPath_def nodePath_def
           split: option.splits if_splits)

lemma printComments_follows:
  assumes "printComments p n prefix = Some q"
  shows "follows p q" and "nodePath n = Some k \<Longrightarrow> flushed k q" and "lastPath q = nodePath n"
proof -
  from assms obtain p1 where b: "fileBoundary p n = Some p1"
    by (auto simp: printComments_def split: option.splits)
  define p2 where "p2 = printScopeComments prefix (scopeComments n) p1"
  from assms b have q: "q = (WriteString (concat (map (\<lambda>c. prefix @ c @ NEWLINE) (Comments n)))
           (if scopeComments n \<noteq> [] then WriteString NEWLINE p2 else p2))\<lparr>lastComment := Loc n\<rparr>"
    by (auto simp: printComments_def Let_def p2_def)
  show lp: "lastPath q = nodePath n"
    by (simp add: q lastPath_def nodePath_def)
  have cq: "comments q = comments p1"
    by (simp add: q p2_def WriteString_def)
  from printScopeComments_buf[of prefix "scopeComments n" p1] fileBoundary_follows(1)[OF b]
  have bq: "\<exists>t. buf q = buf p @ t"
    by (auto simp: q p2_def WriteString_def)
  have fl: "flushed k q" if "flushed k p \<or> nodePath n = Some k" for k
    using fileBoundary_follows(2)[OF b that] lp cq by (auto simp: flushed_def)
  from bq fl show "follows p q" by (auto simp: follows_def)
  show "flushed k q" if "nodePath n = Some k" using fl that by simp
qed

lemma forEach_follows:
  assumes "\<And>x p q. x \<in> set xs \<Longrightarrow> f x p = Some q \<Longrightarrow> follows p q"
    and "forEach f xs p = Some q"
  shows "follows p q"
  using assms
proof (induction xs arbitrary: p)
  case Nil
  then show ?case by (simp add: follows_refl)
next
  case (Cons x xs)
  from Cons.prems(2) obtain p1 where 1: "f x p = Some p1" and 2: "forEach f xs p1 = Some q"
    by (auto split: option.splits)
  from Cons.prems(1)[OF _ 1] have "follows p p1" by simp
  moreover have "follows p1 q"
  proof (rule Cons.IH[OF _ 2])
    fix y a b
    assume "y \<in> set xs" "f y a = Some b"
    then show "follows a b" using Cons.prems(1)[of y a b] by simp
  qed
  ultimately show ?case by (rule follows_trans)
qed

lemma pc_step: "printComments p1 n prefix = Some p2 \<Longrightarrow> follows p p1 \<Longrightarrow> follows p p2"
  using printComments_follows(1) follows_trans by blast

lemmas chain = follows_refl follows_WriteString pc_step




lemma WriteString_twice: "WriteString t (WriteString s p) = WriteString (s @ t) p"
  by (simp add: WriteString_def)

lemma BindStm_format_shape:
  "BindStm_format fmtG prefix w b p = Some q
    \<Longrightarrow> \<exists>p1 p2 t. printComments p (bs_Node b) (prefix @ INDENT) = Some p1
          \<and> printComments p1 (Exp_getNode (bs_Exp b)) (prefix @ INDENT) = Some p2
          \<and> q = WriteString t p2"
  unfolding BindStm_format_def Let_def
  by (auto simp: WriteString_twice split: option.split_asm Exp.split Val.split)

lemma BindStm_format_follows: "BindStm_format fmtG prefix w b p = Some q \<Longrightarrow> follows p q"
  by (drule BindStm_format_shape) (blast intro: chain)

lemma BindStms_format_follows: "BindStms_format fmtG prefix bs p = Some q \<Longrightarrow> follows p q"
proof -
  assume "BindStms_format fmtG prefix bs p = Some q"
  then obtain p1 where 1: "printComments p (bss_Node bs) prefix = Some p1"
    and 2: "forEach (BindStm_format fmtG prefix (bindIdWidth (bss_List bs))) (bss_List bs) p1 = Some q"
    by (auto simp: BindStms_format_def split: option.splits)
  have "follows p1 q"
    by (rule forEach_follows[OF _ 2]) (rule BindStm_format_follows)
  with printComments_follows(1)[OF 1] show ?thesis by (rule follows_trans)
qed

lemma bs_step: "BindStms_format fmtG prefix bs p1 = Some p2 \<Longrightarrow> follows p p1 \<Longrightarrow> follows p p2"
  using BindStms_format_follows follows_trans by blast







lemma whenSome_follows:
  "(\<And>v a b. f v a = Some b \<Longrightarrow> follows a b) \<Longrightarrow> whenSome x f p = Some q \<Longrightarrow> follows p q"
  by (auto simp: whenSome_def follows_refl split: option.splits)

lemma forEach_append: "forEach f (xs @ ys) p = Option.bind (forEach f xs p) (forEach f ys)"
  by (induction xs arbitrary: p) (auto split: option.splits)

lemma Params_format_append:
  "Params_format mw tw iw hw (xs @ ys) p
     = Option.bind (Params_format mw tw iw hw xs p) (Params_format mw tw iw hw ys)"
  unfolding Params_format_def by (rule forEach_append)

lemma Stage_format_steps:
  "Stage_format s p =
     (case measureParamsWidths [st_InParams s, st_OutParams s, ChunkIns s, ChunkOuts s] of
        (mw0, tw, iw, hw) \<Rightarrow>
     Option.bind (printComments p (st_Node s) '''') (\<lambda>p0.
     Option.bind (Params_format (max mw0 3) tw iw hw (st_InParams s @ st_OutParams s)
                    (WriteString (''stage '' @ st_Id s @ ''('' @ NEWLINE) p0)) (\<lambda>p3.
     Option.bind (SrcParam_format (max mw0 3) tw iw (Src s) p3) (\<lambda>p4.
     Option.bind (if Split s
                  then Params_format (max mw0 3) tw (fst (chunkWidths s)) (snd (chunkWidths s))
                         (ChunkIns s @ ChunkOuts s) (WriteString ('') split ('' @ NEWLINE) p4)
                  else Some p4) (\<lambda>p5.
     Option.bind (whenSome (st_Resources s) Resources_format p5) (\<lambda>p6.
     map_option (WriteString ('')'' @ NEWLINE))
       (whenSome (st_Retain s) RetainParams_format p6)))))))"
  by (simp add: Stage_format_def Let_def Params_format_append len_def
           split: option.split prod.split)


lemma follows_buf: "follows p q \<Longrightarrow> \<exists>t. buf q = buf p @ t"
  by (simp add: follows_def)

lemma CallStm_formatHead_follows:
  assumes "CallStm_formatHead fmtG prefix c p = Some q"
  shows "follows p q" and "nodePath (call_Node c) = Some k \<Longrightarrow> flushed k q"
    and "\<exists>cm rest. buf q = buf p @ cm @ prefix @ callHead c @ rest"
proof -
  from assms obtain p1 p3 where
    1: "printComments p (call_Node c) prefix = Some p1"
    and 3: "BindStms_format fmtG prefix (call_Bindings c) (WriteString (prefix @ callHead c) p1) = Some p3"
    and q: "q = WriteString prefix p3"
    by (auto simp: CallStm_formatHead_def callHead_def Let_def split: option.split_asm)
  have f1: "follows p p1" using 1 by (rule printComments_follows(1))
  have f3: "follows (WriteString (prefix @ callHead c) p1) p3" using 3 by (rule BindStms_format_follows)
  have f: "follows p1 q" unfolding q using 3 by (blast intro: chain bs_step)
  with f1 show "follows p q" by (rule follows_trans)
  show "flushed k q" if "nodePath (call_Node c) = Some k"
    using printComments_follows(2)[OF 1 that] f by (simp add: follows_def)
  from follows_buf[OF f1] obtain cm where "buf p1 = buf p @ cm" by blast
  moreover from follows_buf[OF f3] obtain t where "buf p3 = buf (WriteString (prefix @ callHead c) p1) @ t"
    by blast
  ultimately have "buf q = buf p @ cm @ prefix @ callHead c @ (t @ prefix)"
    by (simp add: q WriteString_def)
  then show "\<exists>cm rest. buf q = buf p @ cm @ prefix @ callHead c @ rest" by blast
qed

lemma CallStm_format_follows:
  assumes "CallStm_format fmtG srt prefix c p = Some (q, c')"
  shows "follows p q" and "nodePath (call_Node c) = Some k \<Longrightarrow> flushed k q"
    and "\<exists>cm rest. buf q = buf p @ cm @ prefix @ callHead c @ rest"
proof -
  from assms obtain p4 where h: "CallStm_formatHead fmtG prefix c p = Some p4"
    and f: "follows p4 q"
    by (auto simp: CallStm_format_def Let_def split: option.split_asm if_splits;
        blast intro: chain bs_step)
  from CallStm_formatHead_follows(1)[OF h] f show "follows p q" by (rule follows_trans)
  show "flushed k q" if "nodePath (call_Node c) = Some k"
    using CallStm_formatHead_follows(2)[OF h that] f by (simp add: follows_def)
  from CallStm_formatHead_follows(3)[OF h] obtain cm rest where
    "buf p4 = buf p @ cm @ prefix @ callHead c @ rest" by blast
  moreover from follows_buf[OF f] obtain t where "buf q = buf p4 @ t" by blast
  ultimately have "buf q = buf p @ cm @ prefix @ callHead c @ (rest @ t)" by simp
  then show "\<exists>cm rest. buf q = buf p @ cm @ prefix @ callHead c @ rest" by blast
qed

lemma formatCalls_follows: "formatCalls fmtG srt cs p = Some (q, cs') \<Longrightarrow> follows p q"
proof (induction cs arbitrary: p cs')
  case Nil
  then show ?case by (simp add: follows_refl)
next
  case (Cons c cs)
  from Cons.prems obtain p1 c1 cs1 where
    1: "CallStm_format fmtG srt INDENT c (WriteString NEWLINE p) = Some (p1, c1)"
    and 2: "formatCalls fmtG srt cs p1 = Some (q, cs1)"
    by (auto split: option.split_asm)
  from CallStm_format_follows(1)[OF 1] have "follows p p1"
    by (auto simp: follows_def WriteString_def flushed_def lastPath_def)
  with Cons.IH[OF 2] show ?case using follows_trans by blast
qed

lemma ReturnStm_format_follows: "ReturnStm_format fmtG r p = Some q \<Longrightarrow> follows p q"
  unfolding ReturnStm_format_def
  by (auto split: option.split_asm; blast intro: chain bs_step)

lemma PipelineRetains_format_follows: "PipelineRetains_format r p = Some q \<Longrightarrow> follows p q"
  unfolding PipelineRetains_format_def
  by (auto split: option.split_asm; blast intro: chain)



lemma Pipeline_format_steps:
  assumes "Pipeline_format fmtG srt pl p = Some (q, pl')"
  obtains mw tw iw hw p0 p2 ordered p3 calls' p4 p5 where
    "measureParamsWidths [pl_InParams pl, pl_OutParams pl] = (mw, tw, iw, hw)"
    "printComments p (pl_Node pl) '''' = Some p0"
    "Params_format mw tw iw hw (pl_InParams pl @ pl_OutParams pl)
       (WriteString (''pipeline '' @ pl_Id pl @ ''('' @ NEWLINE) p0) = Some p2"
    "topoSort (Calls pl) = Some ordered"
    "formatCalls fmtG srt ordered (WriteString ('')'' @ NEWLINE @ ''{'') p2) = Some (p3, calls')"
    "ReturnStm_format fmtG (Ret pl) (WriteString NEWLINE p3) = Some p4"
    "whenSome (pl_Retain pl) PipelineRetains_format
             (if pl_Retain pl \<noteq> None then WriteString NEWLINE p4 else p4) = Some p5"
    "q = WriteString (''}'' @ NEWLINE) p5" "pl' = pl\<lparr>Calls := calls'\<rparr>"
proof -
  obtain mw tw iw hw where m: "measureParamsWidths [pl_InParams pl, pl_OutParams pl] = (mw, tw, iw, hw)"
    by (cases "measureParamsWidths [pl_InParams pl, pl_OutParams pl]") auto
  from assms show thesis
    unfolding Pipeline_format_def m
    by (auto simp: Params_format_append bind_eq_Some_conv intro!: that[OF m]
             split: option.split_asm prod.split_asm split del: if_split)
qed





text \<open>A node of the sample file without comments only moves the last-comment mark.\<close>

lemma printComments_node:
  "File (lastComment p) = Some testFile
    \<Longrightarrow> printComments p (node l) prefix = Some (p\<lparr>lastComment := SourceLoc l (Some testFile)\<rparr>)"
  by (simp add: printComments_def fileBoundary_def node_def WriteString_def)

subsection \<open>The topological sort\<close>






lemma dep_ordered_before:
  "dep_ordered ys \<Longrightarrow> a \<in> set ys \<Longrightarrow> b \<in> set ys \<Longrightarrow> call_Id a \<in> set (call_deps b)
    \<Longrightarrow> emitted_before ys a b"
proof (induction ys)
  case Nil
  then show ?case by simp
next
  case (Cons c ys)
  show ?case
  proof (cases "c = b")
    case True
    with Cons.prems(1) have "ready (b # ys) b" by simp
    then have "call_Id a \<notin> set (map call_Id (b # ys))"
      using Cons.prems(4) unfolding ready_def list_all_iff by blast
    with Cons.prems(2) True show ?thesis by auto
  next
    case False
    with Cons.prems(3) have b: "b \<in> set ys" by simp
    show ?thesis
    proof (cases "a = c")
      case True
      with False show ?thesis by (simp add: emitted_before_def)
    next
      case na: False
      with Cons.prems(2) have "a \<in> set ys" by simp
      from Cons.IH[OF _ this b Cons.prems(4)] Cons.prems(1) have "emitted_before ys a b" by simp
      with False show ?thesis by (simp add: emitted_before_def)
    qed
  qed
qed





lemma before_trans:
  "emitted_before ys a b \<Longrightarrow> emitted_before ys b c \<Longrightarrow> emitted_before ys a c"
  unfolding emitted_before_def by (induction ys) (auto split: if_splits)

lemma before_irrefl: "\<not> emitted_before ys a a"
  unfolding emitted_before_def by (auto dest: set_takeWhileD)

text \<open>
  No order of the calls of \<open>TestFormatTopoSort\<close> puts every call after the calls it
  references and also keeps the declared order of every two calls that do not reference
  each other: \<open>STAGE_3\<close> would stay before \<open>STAGE_1\<close>, \<open>STAGE_1\<close> before \<open>STAGE_2\<close>, and
  \<open>STAGE_2\<close> has to come before \<open>STAGE_3\<close>.
\<close>

lemma no_order_keeps_all_independent_pairs:
  "\<not> (\<exists>ys. mset ys = mset declaredCalls \<and> dep_ordered ys
         \<and> (\<forall>a b. emitted_before declaredCalls a b \<and> call_Id a \<notin> set (call_deps b)
                    \<and> call_Id b \<notin> set (call_deps a) \<longrightarrow> emitted_before ys a b))"
proof
  assume "\<exists>ys. mset ys = mset declaredCalls \<and> dep_ordered ys
         \<and> (\<forall>a b. emitted_before declaredCalls a b \<and> call_Id a \<notin> set (call_deps b)
                    \<and> call_Id b \<notin> set (call_deps a) \<longrightarrow> emitted_before ys a b)"
  then obtain ys where ys: "mset ys = mset declaredCalls" "dep_ordered ys"
    and keep: "\<And>a b. emitted_before declaredCalls a b \<Longrightarrow> call_Id a \<notin> set (call_deps b)
                 \<Longrightarrow> call_Id b \<notin> set (call_deps a) \<Longrightarrow> emitted_before ys a b"
    by blast
  have "emitted_before declaredCalls STAGE_3 STAGE_1" by code_simp
  moreover have "call_Id STAGE_3 \<notin> set (call_deps STAGE_1)" by code_simp
  moreover have "call_Id STAGE_1 \<notin> set (call_deps STAGE_3)" by code_simp
  ultimately have b31: "emitted_before ys STAGE_3 STAGE_1" by (rule keep)
  have "emitted_before declaredCalls STAGE_1 STAGE_2" by code_simp
  moreover have "call_Id STAGE_1 \<notin> set (call_deps STAGE_2)" by code_simp
  moreover have "call_Id STAGE_2 \<notin> set (call_deps STAGE_1)" by code_simp
  ultimately have b12: "emitted_before ys STAGE_1 STAGE_2" by (rule keep)
  from ys(1) have "set ys = set declaredCalls" by (metis set_mset_mset)
  then have "STAGE_2 \<in> set ys" "STAGE_3 \<in> set ys" by (simp_all add: declaredCalls_def)
  moreover have "call_Id STAGE_2 \<in> set (call_deps STAGE_3)" by code_simp
  ultimately have b23: "emitted_before ys STAGE_2 STAGE_3"
    using ys(2) by (intro dep_ordered_before)
  from before_trans[OF before_trans[OF b31 b12] b23] show False by (simp add: before_irrefl)
qed







subsection \<open>Literals and bindings\<close>

text \<open>
  C8: a string value is written as a double quote, the value byte for byte, and a double
  quote, whatever the value holds: \<open>blah\<close> gives \<open>"blah"\<close>, and the value \<open>"blah"\<close>, quotes
  included, gives \<open>""blah""\<close>.
\<close>

theorem ValExp_format_string:
  "Exp_format fmtG prefix (ValExp n (VString s)) = [CHR 0x22] @ s @ [CHR 0x22]
   \<and> length (Exp_format fmtG prefix (ValExp n (VString s))) = length s + 2
   \<and> butlast (tl (Exp_format fmtG prefix (ValExp n (VString s)))) = s
   \<and> Exp_format fmtG prefix (ValExp n (VString ''blah'')) = [CHR 0x22] @ ''blah'' @ [CHR 0x22]
   \<and> Exp_format fmtG prefix (ValExp n (VString ([CHR 0x22] @ ''blah'' @ [CHR 0x22])))
       = [CHR 0x22, CHR 0x22] @ ''blah'' @ [CHR 0x22, CHR 0x22]"
  by (simp add: DQ_def butlast_append)

text \<open>
  C7: a binding whose value is a sweep with more than one alternative is written, after
  the comments of the binding and of its value, as \<open>id = sweep(\<close>, one alternative per
  line one level deeper, each with a trailing comma, and the closing parenthesis at the
  binding's indent. A sweep with exactly one alternative is written as the same binding
  without the sweep mark is: the one-element array \<open>[v]\<close>.
\<close>

theorem BindStm_format_sweep:
  assumes "bs_Exp b = ValExp n (VArray vals)" and "bs_Sweep b"
  shows "(1 < length vals \<longrightarrow>
           BindStm_format fmtG prefix idWidth b p =
             map_option
               (WriteString
                  (prefix @ INDENT @ bs_Id b @ replicate (nat (idWidth - len (bs_Id b))) CHR '' ''
                   @ '' = '' @ ''sweep('' @ NEWLINE
                   @ concat (map (\<lambda>v. prefix @ INDENT @ INDENT
                                       @ Exp_format fmtG (prefix @ INDENT @ INDENT) v @ '','' @ NEWLINE) vals)
                   @ prefix @ INDENT @ '')'' @ '','' @ NEWLINE))
               (Option.bind (printComments p (bs_Node b) (prefix @ INDENT))
                  (\<lambda>p1. printComments p1 n (prefix @ INDENT))))
       \<and> (length vals = 1 \<longrightarrow>
            BindStm_format fmtG prefix idWidth b p
              = BindStm_format fmtG prefix idWidth (b\<lparr>bs_Sweep := False\<rparr>) p
            \<and> BindStm_format fmtG prefix idWidth b p =
                map_option
                  (WriteString
                     (prefix @ INDENT @ bs_Id b @ replicate (nat (idWidth - len (bs_Id b))) CHR '' ''
                      @ '' = '' @ ''['' @ Exp_format fmtG (prefix @ INDENT) (hd vals) @ '']''
                      @ '','' @ NEWLINE))
                  (Option.bind (printComments p (bs_Node b) (prefix @ INDENT))
                     (\<lambda>p1. printComments p1 n (prefix @ INDENT))))"
proof (intro conjI impI)
  assume "1 < length vals"
  with assms show "BindStm_format fmtG prefix idWidth b p =
             map_option
               (WriteString
                  (prefix @ INDENT @ bs_Id b @ replicate (nat (idWidth - len (bs_Id b))) CHR '' ''
                   @ '' = '' @ ''sweep('' @ NEWLINE
                   @ concat (map (\<lambda>v. prefix @ INDENT @ INDENT
                                       @ Exp_format fmtG (prefix @ INDENT @ INDENT) v @ '','' @ NEWLINE) vals)
                   @ prefix @ INDENT @ '')'' @ '','' @ NEWLINE))
               (Option.bind (printComments p (bs_Node b) (prefix @ INDENT))
                  (\<lambda>p1. printComments p1 n (prefix @ INDENT)))"
    by (simp add: BindStm_format_def ValExp_formatSweep_def WriteString_twice Let_def
          split: option.splits)
next
  assume one: "length vals = 1"
  with assms show "BindStm_format fmtG prefix idWidth b p
              = BindStm_format fmtG prefix idWidth (b\<lparr>bs_Sweep := False\<rparr>) p"
    by (simp add: BindStm_format_def Let_def split: option.splits)
  from one obtain v where v: "vals = [v]" by (cases vals) auto
  with assms show "BindStm_format fmtG prefix idWidth b p =
                map_option
                  (WriteString
                     (prefix @ INDENT @ bs_Id b @ replicate (nat (idWidth - len (bs_Id b))) CHR '' ''
                      @ '' = '' @ ''['' @ Exp_format fmtG (prefix @ INDENT) (hd vals) @ '']''
                      @ '','' @ NEWLINE))
                  (Option.bind (printComments p (bs_Node b) (prefix @ INDENT))
                     (\<lambda>p1. printComments p1 n (prefix @ INDENT)))"
    by (simp add: BindStm_format_def WriteString_twice Let_def split: option.splits)
qed

theorem BindStm_format_sweep_witness:
  "bs_Exp sweepBinding
     = ValExp (node 1) (VArray [ValExp (node 2) (VString ''four''), ValExp (node 3) (VString ''feir'')])
   \<and> bs_Sweep sweepBinding
   \<and> map_option buf (BindStm_format noFloat INDENT 8 sweepBinding emptyPrinter)
       = Some (''        value    = sweep('' @ NEWLINE
               @ ''            '' @ DQ @ ''four'' @ DQ @ '','' @ NEWLINE
               @ ''            '' @ DQ @ ''feir'' @ DQ @ '','' @ NEWLINE
               @ ''        ),'' @ NEWLINE)
   \<and> bs_Exp singleSweepBinding = ValExp (node 1) (VArray [ValExp (node 1) (VString ''four'')])
   \<and> bs_Sweep singleSweepBinding
   \<and> map_option buf (BindStm_format noFloat INDENT 8 singleSweepBinding emptyPrinter)
       = Some (''        value    = ['' @ DQ @ ''four'' @ DQ @ ''],'' @ NEWLINE)"
proof -
  have e1: "bs_Exp sweepBinding
     = ValExp (node 1) (VArray [ValExp (node 2) (VString ''four''), ValExp (node 3) (VString ''feir'')])"
    and s1: "bs_Sweep sweepBinding"
    by (simp_all add: sweepBinding_def)
  have e2: "bs_Exp singleSweepBinding = ValExp (node 1) (VArray [ValExp (node 1) (VString ''four'')])"
    and s2: "bs_Sweep singleSweepBinding"
    by (simp_all add: singleSweepBinding_def)
  have f: "File (lastComment emptyPrinter) = Some testFile"
    by (simp add: emptyPrinter_def)
  from BindStm_format_sweep[OF e1 s1, of noFloat INDENT 8 emptyPrinter]
  have "map_option buf (BindStm_format noFloat INDENT 8 sweepBinding emptyPrinter)
       = Some (''        value    = sweep('' @ NEWLINE
               @ ''            '' @ DQ @ ''four'' @ DQ @ '','' @ NEWLINE
               @ ''            '' @ DQ @ ''feir'' @ DQ @ '','' @ NEWLINE
               @ ''        ),'' @ NEWLINE)"
    by (simp add: printComments_node f sweepBinding_def)
       (simp add: WriteString_def emptyPrinter_def INDENT_def NEWLINE_def DQ_def len_def numeral_3_eq_3)
  moreover have l: "length [ValExp (node 1) (VString ''four'')] = 1"
    by simp
  from BindStm_format_sweep[OF e2 s2, of noFloat INDENT 8 emptyPrinter, THEN conjunct2, THEN mp,
      OF l, THEN conjunct2]
  have "map_option buf (BindStm_format noFloat INDENT 8 singleSweepBinding emptyPrinter)
       = Some (''        value    = ['' @ DQ @ ''four'' @ DQ @ ''],'' @ NEWLINE)"
    by (simp add: printComments_node f singleSweepBinding_def)
       (simp add: WriteString_def emptyPrinter_def INDENT_def NEWLINE_def DQ_def len_def numeral_3_eq_3)
  ultimately show ?thesis using e1 s1 e2 s2 by simp
qed

text \<open>Integers are written as their decimal digits (the integer examples of C6).\<close>

lemma digit_zero: "char_of (48::nat) = CHR 0x30"
  by code_simp

lemma digit_one: "char_of (49::nat) = CHR 0x31"
  by code_simp

lemma show_int_zero: "show_int 0 = [CHR 0x30]"
  by (simp add: show_int_def digit_zero)

lemma show_int_ten: "show_int 10 = [CHR 0x31, CHR 0x30]"
  by (simp add: show_int_def digit_zero digit_one)

lemma show_int_million:
  "show_int 1000000 = [CHR 0x31, CHR 0x30, CHR 0x30, CHR 0x30, CHR 0x30, CHR 0x30, CHR 0x30]"
  by (simp add: show_int_def digit_zero digit_one)

lemma ValExp_format_int_examples:
  "Exp_format fmtG prefix (ValExp n (VInt i)) = show_int i"
  "Exp_format fmtG prefix (ValExp n (VInt 0)) = ''0''"
  "Exp_format fmtG prefix (ValExp n (VInt 10)) = ''10''"
  "Exp_format fmtG prefix (ValExp n (VInt 1000000)) = ''1000000''"
  by (simp_all add: show_int_zero show_int_ten show_int_million)

subsection \<open>Modifiers of a call\<close>

lemma filter_optional_binding:
  "filter (\<lambda>b. bs_Id b = k) (if X then [trueBinding nd s] else [])
     = (if X \<and> s = k then [trueBinding nd s] else [])"
  by (simp add: trueBinding_def)

lemma found_iff: "(\<exists>b \<in> set bs. bs_Id b = s) \<longleftrightarrow> s \<in> bs_Id ` set bs"
  by auto

lemma modifierEntries_filter:
  "filter (\<lambda>b. bs_Id b = k) (modifierEntries c)
     = filter (\<lambda>b. bs_Id b = k) (bss_List (modifierTable c))
       @ (if bareModifier (call_Modifiers c) k \<and> k \<notin> bs_Id ` set (bss_List (modifierTable c))
          then [trueBinding (bss_Node (modifierTable c)) k] else [])"
proof -
  consider "k = ''local''" | "k = ''preflight''" | "k = ''volatile''"
    | "k \<noteq> ''local''" "k \<noteq> ''preflight''" "k \<noteq> ''volatile''"
    by blast
  then show ?thesis
  proof cases
    case 1
    then show ?thesis
      by (simp add: modifierEntries_def Let_def filter_optional_binding found_iff
            bareModifier_def local_def preflight_def volatile_def)
  next
    case 2
    then show ?thesis
      by (simp add: modifierEntries_def Let_def filter_optional_binding found_iff
            bareModifier_def local_def preflight_def volatile_def)
  next
    case 3
    then show ?thesis
      by (simp add: modifierEntries_def Let_def filter_optional_binding found_iff
            bareModifier_def local_def preflight_def volatile_def)
  next
    case 4
    then show ?thesis
      by (simp add: modifierEntries_def Let_def filter_optional_binding found_iff
            bareModifier_def local_def preflight_def volatile_def)
  qed
qed

lemma sortsById_mset: "sortsById srt \<Longrightarrow> mset (srt xs) = mset xs"
  by (simp add: sortsById_def)

lemma sortsById_sorted: "sortsById srt \<Longrightarrow> sorted (map bs_Id (srt xs))"
  by (simp add: sortsById_def)

lemma stableSort_sortsById: "sortsById stableSort"
  by (simp add: sortsById_def stableSort_def sorted_sort_key)

lemma reversingSort_sortsById: "sortsById reversingSort"
  by (simp add: sortsById_def reversingSort_def sorted_sort_key)

lemma modifierBindings_entries:
  assumes "sortsById srt"
  shows "mset (filter (\<lambda>b. bs_Id b = k) (modifierBindings srt c))
     = mset (filter (\<lambda>b. bs_Id b = k) (bss_List (modifierTable c)))
       + (if bareModifier (call_Modifiers c) k \<and> k \<notin> bs_Id ` set (bss_List (modifierTable c))
          then {#trueBinding (bss_Node (modifierTable c)) k#} else {#})"
proof -
  have "mset (filter (\<lambda>b. bs_Id b = k) (modifierBindings srt c))
          = filter_mset (\<lambda>b. bs_Id b = k) (mset (srt (modifierEntries c)))"
    by (simp add: modifierBindings_def)
  also have "\<dots> = mset (filter (\<lambda>b. bs_Id b = k) (modifierEntries c))"
    by (simp add: sortsById_mset[OF assms])
  finally show ?thesis
    by (simp add: modifierEntries_filter)
qed

text \<open>A list with distinct keys has one arrangement that is sorted by key.\<close>

lemma sorted_by_key_unique:
  assumes "mset xs = mset ys" "sorted (map f xs)" "sorted (map f ys)" "distinct (map f xs)"
  shows "xs = ys"
proof -
  from assms(1) have m: "mset (map f xs) = mset (map f ys)" by simp
  with assms(4) have dy: "distinct (map f ys)" by (metis mset_eq_imp_distinct_iff)
  from m have "set (map f xs) = set (map f ys)" by (metis set_mset_mset)
  with assms(2,3,4) dy have e: "map f xs = map f ys"
    by (intro sorted_distinct_set_unique) simp_all
  from assms(1) have s: "set xs = set ys" by (metis set_mset_mset)
  from assms(4) have "inj_on f (set xs)" by (simp add: distinct_map)
  with s have "inj_on f (set xs \<union> set ys)" by simp
  with e show ?thesis by (simp add: inj_on_map_eq_map)
qed

lemma modifierEntries_distinct:
  assumes "distinct (map bs_Id (bss_List (modifierTable c)))"
  shows "distinct (map bs_Id (modifierEntries c))"
  using assms
  by (auto simp: modifierEntries_def Let_def trueBinding_def local_def preflight_def volatile_def)

lemma distinct_sort_key:
  "distinct (map f xs) \<Longrightarrow> distinct (map f (sort_key f xs))"
  by (metis mset_eq_imp_distinct_iff mset_map mset_sort)

lemma hasModifiers_iff:
  "hasModifiers (call_Modifiers c)
     \<longleftrightarrow> bss_List (modifierTable c) \<noteq> [] \<or> Local (call_Modifiers c)
         \<or> Preflight (call_Modifiers c) \<or> Volatile (call_Modifiers c)"
  by (auto simp: hasModifiers_def modifierTable_def split: option.splits)

text \<open>
  With one identifier bound twice, the order of the two entries is the order that
  \<^verbatim>\<open>sort.Slice\<close> leaves them in.
\<close>

lemma CallStm_format_repeated_identifier:
  "map_option (\<lambda>r. buf (fst r)) (CallStm_format noFloat stableSort INDENT repeatedCall emptyPrinter)
     = Some (''    call STAGE('' @ NEWLINE
             @ ''        input = 1,'' @ NEWLINE
             @ ''    ) using ('' @ NEWLINE
             @ ''        local = true,'' @ NEWLINE
             @ ''        local = false,'' @ NEWLINE
             @ ''    )'' @ NEWLINE)"
  "map_option (\<lambda>r. buf (fst r)) (CallStm_format noFloat reversingSort INDENT repeatedCall emptyPrinter)
     = Some (''    call STAGE('' @ NEWLINE
             @ ''        input = 1,'' @ NEWLINE
             @ ''    ) using ('' @ NEWLINE
             @ ''        local = false,'' @ NEWLINE
             @ ''        local = true,'' @ NEWLINE
             @ ''    )'' @ NEWLINE)"
  by code_simp+

text \<open>
  C5: the list that \<open>CallStm.format\<close> writes in the \<open>using\<close> clause is sorted by
  identifier; for every identifier its entries are the bound-form entries the call
  already had (a \<open>disabled\<close> entry among them), and one entry \<open>id = true\<close> more when the
  identifier is a bare modifier of the call that has no bound-form entry: a bare
  modifier becomes \<open>id = true\<close>, an existing bound form stays as it is and is not
  doubled. When no identifier is bound twice, that fixes the list: it is the entries in
  ascending order of their identifiers. The clause is written, after the call's
  arguments, when the call has a bare modifier or a bound-form entry, and left out
  otherwise.
\<close>

theorem CallStm_format_modifiers:
  assumes "sortsById srt"
  shows
  "sorted (map bs_Id (modifierBindings srt c))
   \<and> (\<forall>k. mset (filter (\<lambda>b. bs_Id b = k) (modifierBindings srt c))
            = mset (filter (\<lambda>b. bs_Id b = k) (bss_List (modifierTable c)))
              + (if bareModifier (call_Modifiers c) k \<and> k \<notin> bs_Id ` set (bss_List (modifierTable c))
                 then {#trueBinding (bss_Node (modifierTable c)) k#} else {#}))
   \<and> (distinct (map bs_Id (bss_List (modifierTable c))) \<longrightarrow>
        modifierBindings srt c = sort_key bs_Id (modifierEntries c)
        \<and> distinct (map bs_Id (modifierBindings srt c))
        \<and> (\<forall>k. filter (\<lambda>b. bs_Id b = k) (modifierBindings srt c)
              = filter (\<lambda>b. bs_Id b = k) (bss_List (modifierTable c))
                @ (if bareModifier (call_Modifiers c) k \<and> k \<notin> bs_Id ` set (bss_List (modifierTable c))
                   then [trueBinding (bss_Node (modifierTable c)) k] else [])))
   \<and> (\<forall>nd k. bs_Id (trueBinding nd k) = k
              \<and> Exp_format fmtG prefix (bs_Exp (trueBinding nd k)) = ''true'')
   \<and> (bss_List (modifierTable c) \<noteq> [] \<or> Local (call_Modifiers c)
         \<or> Preflight (call_Modifiers c) \<or> Volatile (call_Modifiers c) \<longrightarrow>
       CallStm_format fmtG srt prefix c p =
         Option.bind (CallStm_formatHead fmtG prefix c p)
           (\<lambda>h. map_option (\<lambda>q. (WriteString (prefix @ '')'' @ NEWLINE) q, formattedCall srt c))
                  (BindStms_format fmtG prefix
                     ((modifierTable c)\<lparr>bss_List := modifierBindings srt c\<rparr>)
                     (WriteString ('') using ('' @ NEWLINE) h))))
   \<and> (bss_List (modifierTable c) = [] \<and> \<not> Local (call_Modifiers c)
         \<and> \<not> Preflight (call_Modifiers c) \<and> \<not> Volatile (call_Modifiers c) \<longrightarrow>
       CallStm_format fmtG srt prefix c p =
         map_option (\<lambda>h. (WriteString ('')'' @ NEWLINE) h, c)) (CallStm_formatHead fmtG prefix c p))"
proof (intro conjI allI impI)
  show "sorted (map bs_Id (modifierBindings srt c))"
    by (simp add: modifierBindings_def sortsById_sorted[OF assms])
  show "mset (filter (\<lambda>b. bs_Id b = k) (modifierBindings srt c))
            = mset (filter (\<lambda>b. bs_Id b = k) (bss_List (modifierTable c)))
              + (if bareModifier (call_Modifiers c) k \<and> k \<notin> bs_Id ` set (bss_List (modifierTable c))
                 then {#trueBinding (bss_Node (modifierTable c)) k#} else {#})" for k
    by (rule modifierBindings_entries[OF assms])
  show "bs_Id (trueBinding nd k) = k" for nd k by (simp add: trueBinding_def)
  show "Exp_format fmtG prefix (bs_Exp (trueBinding nd k)) = ''true''" for nd k
    by (simp add: trueBinding_def)
next
  assume d: "distinct (map bs_Id (bss_List (modifierTable c)))"
  have de: "distinct (map bs_Id (modifierEntries c))" by (rule modifierEntries_distinct[OF d])
  have "sort_key bs_Id (modifierEntries c) = srt (modifierEntries c)"
  proof (rule sorted_by_key_unique[where f = bs_Id])
    show "mset (sort_key bs_Id (modifierEntries c)) = mset (srt (modifierEntries c))"
      by (simp add: sortsById_mset[OF assms])
    show "sorted (map bs_Id (sort_key bs_Id (modifierEntries c)))" by (simp add: sorted_sort_key)
    show "sorted (map bs_Id (srt (modifierEntries c)))" by (rule sortsById_sorted[OF assms])
    show "distinct (map bs_Id (sort_key bs_Id (modifierEntries c)))"
      using de by (rule distinct_sort_key)
  qed
  then show e: "modifierBindings srt c = sort_key bs_Id (modifierEntries c)"
    by (simp add: modifierBindings_def)
  show "distinct (map bs_Id (modifierBindings srt c))"
    unfolding e using de by (rule distinct_sort_key)
  show "filter (\<lambda>b. bs_Id b = k) (modifierBindings srt c)
              = filter (\<lambda>b. bs_Id b = k) (bss_List (modifierTable c))
                @ (if bareModifier (call_Modifiers c) k \<and> k \<notin> bs_Id ` set (bss_List (modifierTable c))
                   then [trueBinding (bss_Node (modifierTable c)) k] else [])" for k
    unfolding e by (simp only: sort_key_stable modifierEntries_filter)
next
  assume "bss_List (modifierTable c) \<noteq> [] \<or> Local (call_Modifiers c)
         \<or> Preflight (call_Modifiers c) \<or> Volatile (call_Modifiers c)"
  then have h: "hasModifiers (call_Modifiers c)" by (simp add: hasModifiers_iff)
  show "CallStm_format fmtG srt prefix c p =
         Option.bind (CallStm_formatHead fmtG prefix c p)
           (\<lambda>h. map_option (\<lambda>q. (WriteString (prefix @ '')'' @ NEWLINE) q, formattedCall srt c))
                  (BindStms_format fmtG prefix
                     ((modifierTable c)\<lparr>bss_List := modifierBindings srt c\<rparr>)
                     (WriteString ('') using ('' @ NEWLINE) h)))"
    using h by (simp add: CallStm_format_def formattedCall_def WriteString_twice Let_def
                  split: option.splits)
next
  assume "bss_List (modifierTable c) = [] \<and> \<not> Local (call_Modifiers c)
         \<and> \<not> Preflight (call_Modifiers c) \<and> \<not> Volatile (call_Modifiers c)"
  then have h: "\<not> hasModifiers (call_Modifiers c)" by (simp add: hasModifiers_iff)
  then show "CallStm_format fmtG srt prefix c p =
         map_option (\<lambda>h. (WriteString ('')'' @ NEWLINE) h, c)) (CallStm_formatHead fmtG prefix c p)"
    by (simp add: CallStm_format_def split: option.splits)
qed

theorem CallStm_format_modifiers_witness:
  "sortsById stableSort
   \<and> map bs_Id (bss_List (modifierTable modifiedCall)) = [''volatile'', ''disabled'', ''local'']
   \<and> distinct (map bs_Id (bss_List (modifierTable modifiedCall)))
   \<and> bareModifier (call_Modifiers modifiedCall) ''local''
   \<and> bareModifier (call_Modifiers modifiedCall) ''preflight''
   \<and> map bs_Id (modifierBindings stableSort modifiedCall)
       = [''disabled'', ''local'', ''preflight'', ''volatile'']
   \<and> filter (\<lambda>b. bs_Id b = ''local'') (modifierBindings stableSort modifiedCall)
       = [bind 6 ''local'' (ValExp (node 6) (VBool False))]
   \<and> filter (\<lambda>b. bs_Id b = ''preflight'') (modifierBindings stableSort modifiedCall)
       = [trueBinding (node 3) ''preflight'']
   \<and> filter (\<lambda>b. bs_Id b = ''disabled'') (modifierBindings stableSort modifiedCall)
       = [bind 5 ''disabled'' (callRef 5 ''ADD_KEY3'' ''disable_example'')]
   \<and> map_option (\<lambda>r. buf (fst r)) (CallStm_format noFloat stableSort INDENT modifiedCall emptyPrinter)
       = Some (''    call MAP_EXAMPLE('' @ NEWLINE
               @ ''        foo = 1,'' @ NEWLINE
               @ ''    ) using ('' @ NEWLINE
               @ ''        disabled  = ADD_KEY3.disable_example,'' @ NEWLINE
               @ ''        local     = false,'' @ NEWLINE
               @ ''        preflight = true,'' @ NEWLINE
               @ ''        volatile  = false,'' @ NEWLINE
               @ ''    )'' @ NEWLINE)
   \<and> bss_List (modifierTable STAGE_1) = []
   \<and> map_option (\<lambda>r. buf (fst r)) (CallStm_format noFloat stableSort INDENT STAGE_1 emptyPrinter)
       = Some (''    call STAGE as STAGE_1('' @ NEWLINE
               @ ''        input = self.input,'' @ NEWLINE
               @ ''    )'' @ NEWLINE)"
proof -
  note thm1 = CallStm_format_modifiers[OF stableSort_sortsById, of modifiedCall noFloat INDENT emptyPrinter]
  note thm2 = CallStm_format_modifiers[OF stableSort_sortsById, of STAGE_1 noFloat INDENT emptyPrinter]
  have old: "map bs_Id (bss_List (modifierTable modifiedCall)) = [''volatile'', ''disabled'', ''local'']"
    by code_simp
  then have dist: "distinct (map bs_Id (bss_List (modifierTable modifiedCall)))"
    by simp
  have bare: "bareModifier (call_Modifiers modifiedCall) ''local''"
    "bareModifier (call_Modifiers modifiedCall) ''preflight''"
    by code_simp+
  have ids: "map bs_Id (modifierBindings stableSort modifiedCall)
      = [''disabled'', ''local'', ''preflight'', ''volatile'']"
    by code_simp
  have o: "filter (\<lambda>b. bs_Id b = ''local'') (bss_List (modifierTable modifiedCall))
             = [bind 6 ''local'' (ValExp (node 6) (VBool False))]"
    "filter (\<lambda>b. bs_Id b = ''preflight'') (bss_List (modifierTable modifiedCall)) = []"
    "filter (\<lambda>b. bs_Id b = ''disabled'') (bss_List (modifierTable modifiedCall))
             = [bind 5 ''disabled'' (callRef 5 ''ADD_KEY3'' ''disable_example'')]"
    "bss_Node (modifierTable modifiedCall) = node 3"
    by code_simp+
  have notbare: "\<not> bareModifier (call_Modifiers modifiedCall) ''disabled''"
    by code_simp
  note d3 = thm1[THEN conjunct2, THEN conjunct2, THEN conjunct1, THEN mp, OF dist]
  from d3 have e: "filter (\<lambda>b. bs_Id b = k) (modifierBindings stableSort modifiedCall)
            = filter (\<lambda>b. bs_Id b = k) (bss_List (modifierTable modifiedCall))
              @ (if bareModifier (call_Modifiers modifiedCall) k
                    \<and> k \<notin> bs_Id ` set (bss_List (modifierTable modifiedCall))
                 then [trueBinding (bss_Node (modifierTable modifiedCall)) k] else [])" for k
    by blast
  have img: "bs_Id ` set (bss_List (modifierTable modifiedCall)) = set [''volatile'', ''disabled'', ''local'']"
    using old by (metis set_map)
  have f1: "filter (\<lambda>b. bs_Id b = ''local'') (modifierBindings stableSort modifiedCall)
       = [bind 6 ''local'' (ValExp (node 6) (VBool False))]"
    by (simp add: e o img)
  have f2: "filter (\<lambda>b. bs_Id b = ''preflight'') (modifierBindings stableSort modifiedCall)
       = [trueBinding (node 3) ''preflight'']"
    by (simp add: e o img bare)
  have f3: "filter (\<lambda>b. bs_Id b = ''disabled'') (modifierBindings stableSort modifiedCall)
       = [bind 5 ''disabled'' (callRef 5 ''ADD_KEY3'' ''disable_example'')]"
    by (simp add: e o img notbare)
  have hm: "bss_List (modifierTable modifiedCall) \<noteq> [] \<or> Local (call_Modifiers modifiedCall)
         \<or> Preflight (call_Modifiers modifiedCall) \<or> Volatile (call_Modifiers modifiedCall)"
    by code_simp
  note eq1 = thm1[THEN conjunct2, THEN conjunct2, THEN conjunct2, THEN conjunct2, THEN conjunct1,
      THEN mp, OF hm]
  have out1: "map_option (\<lambda>r. buf (fst r)) (CallStm_format noFloat stableSort INDENT modifiedCall emptyPrinter)
       = Some (''    call MAP_EXAMPLE('' @ NEWLINE
               @ ''        foo = 1,'' @ NEWLINE
               @ ''    ) using ('' @ NEWLINE
               @ ''        disabled  = ADD_KEY3.disable_example,'' @ NEWLINE
               @ ''        local     = false,'' @ NEWLINE
               @ ''        preflight = true,'' @ NEWLINE
               @ ''        volatile  = false,'' @ NEWLINE
               @ ''    )'' @ NEWLINE)"
    unfolding eq1 by code_simp
  have nm: "bss_List (modifierTable STAGE_1) = [] \<and> \<not> Local (call_Modifiers STAGE_1)
         \<and> \<not> Preflight (call_Modifiers STAGE_1) \<and> \<not> Volatile (call_Modifiers STAGE_1)"
    by code_simp
  note eq2 = thm2[THEN conjunct2, THEN conjunct2, THEN conjunct2, THEN conjunct2, THEN conjunct2,
      THEN mp, OF nm]
  have out2: "map_option (\<lambda>r. buf (fst r)) (CallStm_format noFloat stableSort INDENT STAGE_1 emptyPrinter)
       = Some (''    call STAGE as STAGE_1('' @ NEWLINE
               @ ''        input = self.input,'' @ NEWLINE
               @ ''    )'' @ NEWLINE)"
    unfolding eq2 by code_simp
  from stableSort_sortsById old dist bare ids f1 f2 f3 out1 nm out2 show ?thesis by simp
qed

subsection \<open>Column widths\<close>

lemma idLengths_image: "idLengths ps = (\<lambda>p. len (par_Id p)) ` {p \<in> set ps. len (par_Id p) < 35}"
  by (auto simp: idLengths_def)

lemma helpLengths_image: "helpLengths ps = (\<lambda>p. len (Help p)) ` {p \<in> set ps. len (Help p) < 25}"
  by (auto simp: helpLengths_def)

lemma finite_idLengths [simp]: "finite (idLengths ps)"
  by (simp add: idLengths_image)

lemma finite_helpLengths [simp]: "finite (helpLengths ps)"
  by (simp add: helpLengths_image)

lemma idLengths_Cons:
  "idLengths (p # ps)
     = (if len (par_Id p) < 35 then insert (len (par_Id p)) (idLengths ps) else idLengths ps)"
  by (auto simp: idLengths_def)

lemma helpLengths_Cons:
  "helpLengths (p # ps)
     = (if len (Help p) < 25 then insert (len (Help p)) (helpLengths ps) else helpLengths ps)"
  by (auto simp: helpLengths_def)

lemma idLengths_append: "idLengths (ps @ qs) = idLengths ps \<union> idLengths qs"
  by (auto simp: idLengths_def)

lemma helpLengths_append: "helpLengths (ps @ qs) = helpLengths ps \<union> helpLengths qs"
  by (auto simp: helpLengths_def)

lemma idLengths_nonneg: "x \<in> idLengths ps \<Longrightarrow> 0 \<le> x"
  by (auto simp: idLengths_def len_def)

lemma helpLengths_nonneg: "x \<in> helpLengths ps \<Longrightarrow> 0 \<le> x"
  by (auto simp: helpLengths_def len_def)

lemma Max_insert_max:
  fixes c x :: int
  assumes "finite S"
  shows "Max (insert (max c x) S) = Max (insert c (insert x S))"
proof -
  have "Max (insert c (insert x S)) = max c (Max (insert x S))"
    using assms by simp
  also have "\<dots> = max c (if S = {} then x else max x (Max S))"
    using assms by simp
  also have "\<dots> = Max (insert (max c x) S)"
    using assms by (cases "S = {}") (simp_all add: max.assoc)
  finally show ?thesis by simp
qed

lemma getWidths_acc:
  "idWidthOf (fold getWidths_step ps (a, b, c, d)) = Max (insert c (idLengths ps))
   \<and> helpWidthOf (fold getWidths_step ps (a, b, c, d)) = Max (insert d (helpLengths ps))"
proof (induction ps arbitrary: a b c d)
  case Nil
  show ?case by (simp add: idWidthOf_def helpWidthOf_def idLengths_def helpLengths_def)
next
  case (Cons p ps)
  define c' where "c' = (if len (par_Id p) < 35 then max c (len (par_Id p)) else c)"
  define d' where "d' = (if len (Help p) < 25 then max d (len (Help p)) else d)"
  have step: "fold getWidths_step (p # ps) (a, b, c, d)
                = fold getWidths_step ps (max a (len (getMode (par_Mode p))),
                                        max b (len (Tname p) + 2 * ArrayDim p), c', d')"
    by (simp add: getWidths_step_def c'_def d'_def)
  have ci: "Max (insert c' (idLengths ps)) = Max (insert c (idLengths (p # ps)))"
    by (simp add: c'_def idLengths_Cons Max_insert_max del: Max_insert)
  have di: "Max (insert d' (helpLengths ps)) = Max (insert d (helpLengths (p # ps)))"
    by (simp add: d'_def helpLengths_Cons Max_insert_max del: Max_insert)
  show ?case
    unfolding step using Cons.IH[of _ _ c' d'] ci di by simp
qed

lemma getWidths_widths:
  "idWidthOf (getWidths ps) = Max (insert 0 (idLengths ps))"
  "helpWidthOf (getWidths ps) = Max (insert 0 (helpLengths ps))"
  by (simp_all add: getWidths_def getWidths_acc)

lemma Max_merge:
  fixes c :: int
  assumes "finite S" "finite T"
  shows "Max (insert (max c (Max (insert 0 S))) (insert 0 T)) = Max (insert c (insert 0 (S \<union> T)))"
proof -
  have eq: "insert c (insert 0 (S \<union> T)) = insert c (insert 0 S) \<union> insert 0 T"
    by auto
  have "Max (insert c (insert 0 S) \<union> insert 0 T)
               = max (Max (insert c (insert 0 S))) (Max (insert 0 T))"
    by (rule Max_Un) (use assms in auto)
  also have "Max (insert c (insert 0 S)) = max c (Max (insert 0 S))"
    using assms by simp
  also have "max (max c (Max (insert 0 S))) (Max (insert 0 T))
               = Max (insert (max c (Max (insert 0 S))) (insert 0 T))"
    using assms by simp
  finally show ?thesis by (simp only: eq)
qed

lemma measure_acc:
  "idWidthOf (fold measureParamsWidths_step grp (a, b, c, d))
     = (if grp = [] then c else Max (insert c (insert 0 (idLengths (concat grp)))))
   \<and> helpWidthOf (fold measureParamsWidths_step grp (a, b, c, d))
     = (if grp = [] then d else Max (insert d (insert 0 (helpLengths (concat grp)))))"
proof (induction grp arbitrary: a b c d)
  case Nil
  then show ?case
    by (simp add: idWidthOf_def helpWidthOf_def)
next
  case (Cons ps grp)
  obtain mw tw iw hw where g: "getWidths ps = (mw, tw, iw, hw)"
    by (cases "getWidths ps") auto
  from getWidths_widths[of ps] g
  have iw: "iw = Max (insert 0 (idLengths ps))" and hw: "hw = Max (insert 0 (helpLengths ps))"
    by (simp_all add: idWidthOf_def helpWidthOf_def)
  have step: "fold measureParamsWidths_step (ps # grp) (a, b, c, d)
                = fold measureParamsWidths_step grp (max a mw, max b tw, max c iw, max d hw)"
    by (simp add: measureParamsWidths_step_def g)
  show ?case
  proof (cases "grp = []")
    case True
    then show ?thesis
      unfolding step using iw hw
      by (simp add: idWidthOf_def helpWidthOf_def)
  next
    case False
    have "Max (insert (max c iw) (insert 0 (idLengths (concat grp))))
            = Max (insert c (insert 0 (idLengths ps \<union> idLengths (concat grp))))"
      unfolding iw by (rule Max_merge) simp_all
    moreover have "Max (insert (max d hw) (insert 0 (helpLengths (concat grp))))
            = Max (insert d (insert 0 (helpLengths ps \<union> helpLengths (concat grp))))"
      unfolding hw by (rule Max_merge) simp_all
    ultimately show ?thesis
      unfolding step using False Cons.IH[of "max a mw" "max b tw" "max c iw" "max d hw"]
      by (simp add: idLengths_append helpLengths_append del: Max_insert)
  qed
qed

lemma measureParamsWidths_widths:
  "idWidthOf (measureParamsWidths grp) = Max (insert 0 (idLengths (concat grp)))"
  "helpWidthOf (measureParamsWidths grp) = Max (insert 0 (helpLengths (concat grp)))"
  by (simp_all add: measureParamsWidths_def measure_acc idLengths_def helpLengths_def)

lemma primary_le_all:
  "idWidthOf (measureParamsWidths [a, b]) \<le> idWidthOf (measureParamsWidths [a, b, c, d])"
  "helpWidthOf (measureParamsWidths [a, b]) \<le> helpWidthOf (measureParamsWidths [a, b, c, d])"
  unfolding measureParamsWidths_widths
  by (rule Max_mono; auto simp: idLengths_append helpLengths_append)+

lemma Repeat_space: "Repeat '' '' n = Some pad \<Longrightarrow> 0 \<le> n \<and> pad = replicate (nat n) CHR '' ''"
  by (auto simp: Repeat_def split: if_splits)

lemma len_pos: "0 < len s \<longleftrightarrow> s \<noteq> []"
  by (simp add: len_def)

lemma pad_if:
  fixes a b :: int
  shows "(if a < b then replicate (nat (b - a)) c else []) = replicate (nat (b - a)) c"
  by simp

lemma length_brackets: "length (concat (replicate n ''[]'')) = 2 * n"
  by (induction n) auto

lemma paramFormat_columns:
  assumes f: "paramFormat mw tw iw hw param p = Some q"
    and i: "par_Id param \<noteq> ''default''" "par_Id param \<noteq> ''''" and h: "Help param \<noteq> ''''"
    and w: "len (par_Id param) \<le> iw" and a: "0 \<le> ArrayDim param"
  shows "\<exists>p1 col. printComments p (par_Node param) INDENT = Some p1
           \<and> length col = nat (4 + mw + 1 + tw + 1 + iw + 2)
           \<and> buf q = buf p1 @ col @ DQ @ Help param @ DQ
                     @ (if OutName param \<noteq> ''''
                        then replicate (nat (hw - len (Help param))) CHR '' '' @ ''  ''
                             @ DQ @ OutName param @ DQ
                        else '''')
                     @ '','' @ NEWLINE"
proof -
  from f obtain p1 modePad typePad where
    1: "printComments p (par_Node param) INDENT = Some p1"
    and m: "Repeat '' '' (mw - len (getMode (par_Mode param))) = Some modePad"
    and t: "Repeat '' '' (tw - len (Tname param) - 2 * ArrayDim param) = Some typePad"
    by (auto simp: paramFormat_def Let_def split: option.split_asm split del: if_split)
  from Repeat_space[OF m] have m0: "0 \<le> mw - len (getMode (par_Mode param))"
    and mp: "modePad = replicate (nat (mw - len (getMode (par_Mode param)))) CHR '' ''" by simp_all
  from Repeat_space[OF t] have t0: "0 \<le> tw - len (Tname param) - 2 * ArrayDim param"
    and tp: "typePad = replicate (nat (tw - len (Tname param) - 2 * ArrayDim param)) CHR '' ''"
    by simp_all
  define col where "col = INDENT @ getMode (par_Mode param) @ modePad @ '' '' @ Tname param
      @ concat (replicate (nat (ArrayDim param)) ''[]'') @ typePad @ '' '' @ par_Id param
      @ replicate (nat (iw - len (par_Id param))) CHR '' '' @ ''  ''"
  have l: "length col = nat (4 + mw + 1 + tw + 1 + iw + 2)"
    using m0 t0 w a by (simp add: col_def mp tp INDENT_def length_brackets len_def)
  have "q = WriteString (col @ DQ @ Help param @ DQ
                     @ (if OutName param \<noteq> ''''
                        then replicate (nat (hw - len (Help param))) CHR '' '' @ ''  ''
                             @ DQ @ OutName param @ DQ
                        else '''')
                     @ '','' @ NEWLINE) p1"
    using f 1 m t i h by (auto simp: paramFormat_def Let_def col_def pad_if len_pos)
  then have "buf q = buf p1 @ col @ DQ @ Help param @ DQ
                     @ (if OutName param \<noteq> ''''
                        then replicate (nat (hw - len (Help param))) CHR '' '' @ ''  ''
                             @ DQ @ OutName param @ DQ
                        else '''')
                     @ '','' @ NEWLINE"
    by (simp add: WriteString_def)
  with 1 l show ?thesis by blast
qed

lemma chunkWidths_rule:
  "chunkWidths s =
       (if 30 < idWidthOf (measureParamsWidths [st_InParams s, st_OutParams s, ChunkIns s, ChunkOuts s])
           \<or> 20 < helpWidthOf (measureParamsWidths [st_InParams s, st_OutParams s, ChunkIns s, ChunkOuts s])
        then (idWidthOf (measureParamsWidths [ChunkIns s, ChunkOuts s]),
              helpWidthOf (measureParamsWidths [ChunkIns s, ChunkOuts s]))
        else (idWidthOf (measureParamsWidths [st_InParams s, st_OutParams s, ChunkIns s, ChunkOuts s]),
              helpWidthOf (measureParamsWidths [st_InParams s, st_OutParams s, ChunkIns s, ChunkOuts s])))"
  by (simp add: chunkWidths_def idWidthOf_def helpWidthOf_def split: prod.splits)

lemma Stage_format_widths:
  "Stage_format s p =
     (let mw = max (modeWidthOf (measureParamsWidths
                      [st_InParams s, st_OutParams s, ChunkIns s, ChunkOuts s])) 3;
          tw = typeWidthOf (measureParamsWidths
                      [st_InParams s, st_OutParams s, ChunkIns s, ChunkOuts s]);
          iw = Max (insert 0 (idLengths (st_InParams s @ st_OutParams s @ ChunkIns s @ ChunkOuts s)));
          hw = Max (insert 0 (helpLengths (st_InParams s @ st_OutParams s @ ChunkIns s @ ChunkOuts s)));
          ciw = (if 30 < iw \<or> 20 < hw then Max (insert 0 (idLengths (ChunkIns s @ ChunkOuts s))) else iw);
          chw = (if 30 < iw \<or> 20 < hw then Max (insert 0 (helpLengths (ChunkIns s @ ChunkOuts s))) else hw)
      in
      Option.bind (printComments p (st_Node s) '''') (\<lambda>p0.
      Option.bind (Params_format mw tw iw hw (st_InParams s @ st_OutParams s)
                     (WriteString (''stage '' @ st_Id s @ ''('' @ NEWLINE) p0)) (\<lambda>p3.
      Option.bind (SrcParam_format mw tw iw (Src s) p3) (\<lambda>p4.
      Option.bind (if Split s
                   then Params_format mw tw ciw chw (ChunkIns s @ ChunkOuts s)
                          (WriteString ('') split ('' @ NEWLINE) p4)
                   else Some p4) (\<lambda>p5.
      Option.bind (whenSome (st_Resources s) Resources_format p5) (\<lambda>p6.
      map_option (WriteString ('')'' @ NEWLINE))
        (whenSome (st_Retain s) RetainParams_format p6)))))))"
proof -
  obtain mw0 tw iw hw where m: "measureParamsWidths [st_InParams s, st_OutParams s, ChunkIns s, ChunkOuts s]
      = (mw0, tw, iw, hw)"
    by (cases "measureParamsWidths [st_InParams s, st_OutParams s, ChunkIns s, ChunkOuts s]") auto
  from measureParamsWidths_widths[of "[st_InParams s, st_OutParams s, ChunkIns s, ChunkOuts s]"] m
  have iw: "Max (insert 0 (idLengths (st_InParams s @ st_OutParams s @ ChunkIns s @ ChunkOuts s))) = iw"
    and hw: "Max (insert 0 (helpLengths (st_InParams s @ st_OutParams s @ ChunkIns s @ ChunkOuts s))) = hw"
    by (simp_all add: idWidthOf_def helpWidthOf_def)
  from measureParamsWidths_widths[of "[ChunkIns s, ChunkOuts s]"]
  have c: "Max (insert 0 (idLengths (ChunkIns s @ ChunkOuts s)))
             = idWidthOf (measureParamsWidths [ChunkIns s, ChunkOuts s])"
    "Max (insert 0 (helpLengths (ChunkIns s @ ChunkOuts s)))
             = helpWidthOf (measureParamsWidths [ChunkIns s, ChunkOuts s])"
    by simp_all
  have cw: "chunkWidths s =
      (if 30 < iw \<or> 20 < hw then idWidthOf (measureParamsWidths [ChunkIns s, ChunkOuts s]) else iw,
       if 30 < iw \<or> 20 < hw then helpWidthOf (measureParamsWidths [ChunkIns s, ChunkOuts s]) else hw)"
    unfolding chunkWidths_rule by (simp add: m idWidthOf_def helpWidthOf_def)
  show ?thesis
    unfolding Stage_format_steps Let_def iw hw c
    by (simp only: m cw modeWidthOf_def typeWidthOf_def prod.case fst_conv snd_conv)
qed

text \<open>
  C9, as the claim states it, fails: the in and out parameters of the stage \<open>CHUNKY\<close>
  have identifiers of one letter, so that their greatest identifier length is 1, and
  \<open>Stage.format\<close> writes their block with an identifier column of 23 characters, the
  length of the chunk parameter's identifier: \<open>a\<close> is followed by 22 spaces more than
  the two that separate the columns.
\<close>

theorem Stage_format_chunk_widens_primary:
  "Max (insert 0 (idLengths (st_InParams chunkyStage @ st_OutParams chunkyStage))) = 1
   \<and> idWidthOf (measureParamsWidths [st_InParams chunkyStage, st_OutParams chunkyStage]) = 1
   \<and> idWidthOf (measureParamsWidths [st_InParams chunkyStage, st_OutParams chunkyStage,
                                       ChunkIns chunkyStage, ChunkOuts chunkyStage]) = 23
   \<and> map_option buf (Stage_format chunkyStage emptyPrinter) = Some formattedCHUNKY
   \<and> map_option buf (Stage_format chunkyStage emptyPrinter)
       = Some (''stage CHUNKY('' @ NEWLINE
               @ ''    in  int a'' @ replicate 22 CHR '' '' @ ''  '' @ DQ @ ''help'' @ DQ @ '','' @ NEWLINE
               @ ''    out int b,'' @ NEWLINE
               @ ''    src py  '' @ DQ @ ''stages/chunky'' @ DQ @ '','' @ NEWLINE
               @ '') split ('' @ NEWLINE
               @ ''    in  int a_long_chunk_identifier,'' @ NEWLINE
               @ '')'' @ NEWLINE)"
proof -
  have "idWidthOf (measureParamsWidths [st_InParams chunkyStage, st_OutParams chunkyStage]) = 1"
    by code_simp
  moreover from this have
    "Max (insert 0 (idLengths (st_InParams chunkyStage @ st_OutParams chunkyStage))) = 1"
    by (simp add: measureParamsWidths_widths)
  moreover have "idWidthOf (measureParamsWidths [st_InParams chunkyStage, st_OutParams chunkyStage,
                                       ChunkIns chunkyStage, ChunkOuts chunkyStage]) = 23"
    by code_simp
  moreover have "map_option buf (Stage_format chunkyStage emptyPrinter) = Some formattedCHUNKY"
    by code_simp
  ultimately show ?thesis by (simp add: formattedCHUNKY_def)
qed

text \<open>
  C9 (amended): the identifier and help widths measured over a group of parameter lists
  are the greatest identifier length below 35 and the greatest help length below 25 in
  the group (0 when there is none): longer identifiers and help strings do not count.
  \<open>Pipeline.format\<close> measures the in and out parameters and writes both with these
  widths. \<open>Stage.format\<close> measures the in, out, chunk in and chunk out parameters
  together and writes the in and out parameters and the source line with these widths;
  it writes the split block with the same widths unless the identifier width so measured
  exceeds 30 or the help width exceeds 20, which is the case whenever the widths of the
  in and out parameters alone do, and then with the widths of the chunk parameters alone.
  A parameter line with an identifier no longer than the identifier width and a help
  string has the help string's quote right after the mode, type and identifier columns
  and their separators; an output name follows the help string padded to the help width.
\<close>

theorem parameter_column_widths:
  "idWidthOf (getWidths ps) = Max (insert 0 (idLengths ps))
   \<and> helpWidthOf (getWidths ps) = Max (insert 0 (helpLengths ps))
   \<and> idWidthOf (measureParamsWidths grp) = Max (insert 0 (idLengths (concat grp)))
   \<and> helpWidthOf (measureParamsWidths grp) = Max (insert 0 (helpLengths (concat grp)))
   \<and> Stage_format s p =
     (let mw = max (modeWidthOf (measureParamsWidths
                      [st_InParams s, st_OutParams s, ChunkIns s, ChunkOuts s])) 3;
          tw = typeWidthOf (measureParamsWidths
                      [st_InParams s, st_OutParams s, ChunkIns s, ChunkOuts s]);
          iw = Max (insert 0 (idLengths (st_InParams s @ st_OutParams s @ ChunkIns s @ ChunkOuts s)));
          hw = Max (insert 0 (helpLengths (st_InParams s @ st_OutParams s @ ChunkIns s @ ChunkOuts s)));
          ciw = (if 30 < iw \<or> 20 < hw then Max (insert 0 (idLengths (ChunkIns s @ ChunkOuts s))) else iw);
          chw = (if 30 < iw \<or> 20 < hw then Max (insert 0 (helpLengths (ChunkIns s @ ChunkOuts s))) else hw)
      in
      Option.bind (printComments p (st_Node s) '''') (\<lambda>p0.
      Option.bind (Params_format mw tw iw hw (st_InParams s @ st_OutParams s)
                     (WriteString (''stage '' @ st_Id s @ ''('' @ NEWLINE) p0)) (\<lambda>p3.
      Option.bind (SrcParam_format mw tw iw (Src s) p3) (\<lambda>p4.
      Option.bind (if Split s
                   then Params_format mw tw ciw chw (ChunkIns s @ ChunkOuts s)
                          (WriteString ('') split ('' @ NEWLINE) p4)
                   else Some p4) (\<lambda>p5.
      Option.bind (whenSome (st_Resources s) Resources_format p5) (\<lambda>p6.
      map_option (WriteString ('')'' @ NEWLINE))
        (whenSome (st_Retain s) RetainParams_format p6)))))))
   \<and> (30 < Max (insert 0 (idLengths (st_InParams s @ st_OutParams s)))
        \<or> 20 < Max (insert 0 (helpLengths (st_InParams s @ st_OutParams s))) \<longrightarrow>
       (30 < Max (insert 0 (idLengths (st_InParams s @ st_OutParams s @ ChunkIns s @ ChunkOuts s)))
        \<or> 20 < Max (insert 0 (helpLengths (st_InParams s @ st_OutParams s @ ChunkIns s @ ChunkOuts s))))
       \<and> chunkWidths s = (Max (insert 0 (idLengths (ChunkIns s @ ChunkOuts s))),
                          Max (insert 0 (helpLengths (ChunkIns s @ ChunkOuts s)))))
   \<and> (Pipeline_format fmtG srt pl pp = Some (pq, pl') \<longrightarrow>
        (\<exists>p0 p2 t.
           printComments pp (pl_Node pl) '''' = Some p0
           \<and> Params_format
                 (modeWidthOf (measureParamsWidths [pl_InParams pl, pl_OutParams pl]))
                 (typeWidthOf (measureParamsWidths [pl_InParams pl, pl_OutParams pl]))
                 (Max (insert 0 (idLengths (pl_InParams pl @ pl_OutParams pl))))
                 (Max (insert 0 (helpLengths (pl_InParams pl @ pl_OutParams pl))))
                 (pl_InParams pl @ pl_OutParams pl)
                 (WriteString (''pipeline '' @ pl_Id pl @ ''('' @ NEWLINE) p0) = Some p2
           \<and> buf pq = buf p2 @ t))
   \<and> Params_format mw tw iw hw [] p = Some p
   \<and> Params_format mw tw iw hw (param # params) p
       = Option.bind (paramFormat mw tw iw hw param p) (Params_format mw tw iw hw params)
   \<and> (paramFormat mw tw iw hw param p = Some q
        \<and> par_Id param \<noteq> ''default'' \<and> par_Id param \<noteq> '''' \<and> Help param \<noteq> ''''
        \<and> len (par_Id param) \<le> iw \<and> 0 \<le> ArrayDim param \<longrightarrow>
        (\<exists>p1 col.
           printComments p (par_Node param) INDENT = Some p1
           \<and> length col = nat (4 + mw + 1 + tw + 1 + iw + 2)
           \<and> buf q = buf p1 @ col @ DQ @ Help param @ DQ
                     @ (if OutName param \<noteq> ''''
                        then replicate (nat (hw - len (Help param))) CHR '' '' @ ''  ''
                             @ DQ @ OutName param @ DQ
                        else '''')
                     @ '','' @ NEWLINE))
   \<and> map_option buf (Stage_format wideStage emptyPrinter) = Some formattedWIDE"
proof (intro conjI impI)
  show "idWidthOf (getWidths ps) = Max (insert 0 (idLengths ps))"
    and "helpWidthOf (getWidths ps) = Max (insert 0 (helpLengths ps))"
    by (rule getWidths_widths)+
  show "idWidthOf (measureParamsWidths grp) = Max (insert 0 (idLengths (concat grp)))"
    and "helpWidthOf (measureParamsWidths grp) = Max (insert 0 (helpLengths (concat grp)))"
    by (rule measureParamsWidths_widths)+
  show "Stage_format s p =
     (let mw = max (modeWidthOf (measureParamsWidths
                      [st_InParams s, st_OutParams s, ChunkIns s, ChunkOuts s])) 3;
          tw = typeWidthOf (measureParamsWidths
                      [st_InParams s, st_OutParams s, ChunkIns s, ChunkOuts s]);
          iw = Max (insert 0 (idLengths (st_InParams s @ st_OutParams s @ ChunkIns s @ ChunkOuts s)));
          hw = Max (insert 0 (helpLengths (st_InParams s @ st_OutParams s @ ChunkIns s @ ChunkOuts s)));
          ciw = (if 30 < iw \<or> 20 < hw then Max (insert 0 (idLengths (ChunkIns s @ ChunkOuts s))) else iw);
          chw = (if 30 < iw \<or> 20 < hw then Max (insert 0 (helpLengths (ChunkIns s @ ChunkOuts s))) else hw)
      in
      Option.bind (printComments p (st_Node s) '''') (\<lambda>p0.
      Option.bind (Params_format mw tw iw hw (st_InParams s @ st_OutParams s)
                     (WriteString (''stage '' @ st_Id s @ ''('' @ NEWLINE) p0)) (\<lambda>p3.
      Option.bind (SrcParam_format mw tw iw (Src s) p3) (\<lambda>p4.
      Option.bind (if Split s
                   then Params_format mw tw ciw chw (ChunkIns s @ ChunkOuts s)
                          (WriteString ('') split ('' @ NEWLINE) p4)
                   else Some p4) (\<lambda>p5.
      Option.bind (whenSome (st_Resources s) Resources_format p5) (\<lambda>p6.
      map_option (WriteString ('')'' @ NEWLINE))
        (whenSome (st_Retain s) RetainParams_format p6)))))))"
    by (rule Stage_format_widths)
  show "Params_format mw tw iw hw [] p = Some p"
    by (simp add: Params_format_def)
  show "Params_format mw tw iw hw (param # params) p
       = Option.bind (paramFormat mw tw iw hw param p) (Params_format mw tw iw hw params)"
    by (simp add: Params_format_def split: option.split)
  show "map_option buf (Stage_format wideStage emptyPrinter) = Some formattedWIDE"
    by code_simp
next
  assume a: "30 < Max (insert 0 (idLengths (st_InParams s @ st_OutParams s)))
        \<or> 20 < Max (insert 0 (helpLengths (st_InParams s @ st_OutParams s)))"
  from primary_le_all[of "st_InParams s" "st_OutParams s" "ChunkIns s" "ChunkOuts s"]
  have le: "Max (insert 0 (idLengths (st_InParams s @ st_OutParams s)))
              \<le> Max (insert 0 (idLengths (st_InParams s @ st_OutParams s @ ChunkIns s @ ChunkOuts s)))"
    "Max (insert 0 (helpLengths (st_InParams s @ st_OutParams s)))
              \<le> Max (insert 0 (helpLengths (st_InParams s @ st_OutParams s @ ChunkIns s @ ChunkOuts s)))"
    by (simp_all add: measureParamsWidths_widths)
  with a show b: "30 < Max (insert 0 (idLengths (st_InParams s @ st_OutParams s @ ChunkIns s @ ChunkOuts s)))
        \<or> 20 < Max (insert 0 (helpLengths (st_InParams s @ st_OutParams s @ ChunkIns s @ ChunkOuts s)))"
    by linarith
  then show "chunkWidths s = (Max (insert 0 (idLengths (ChunkIns s @ ChunkOuts s))),
                          Max (insert 0 (helpLengths (ChunkIns s @ ChunkOuts s))))"
    unfolding chunkWidths_rule by (simp add: measureParamsWidths_widths)
next
  assume "Pipeline_format fmtG srt pl pp = Some (pq, pl')"
  then obtain mw tw iw hw p0 p2 where
    m: "measureParamsWidths [pl_InParams pl, pl_OutParams pl] = (mw, tw, iw, hw)"
    and 0: "printComments pp (pl_Node pl) '''' = Some p0"
    and 2: "Params_format mw tw iw hw (pl_InParams pl @ pl_OutParams pl)
       (WriteString (''pipeline '' @ pl_Id pl @ ''('' @ NEWLINE) p0) = Some p2"
    and f: "follows p2 pq"
  proof (rule Pipeline_format_steps)
    fix mw tw iw hw p0 p2 ordered p3 calls' p4 p5
    assume m: "measureParamsWidths [pl_InParams pl, pl_OutParams pl] = (mw, tw, iw, hw)"
      and 0: "printComments pp (pl_Node pl) '''' = Some p0"
      and 2: "Params_format mw tw iw hw (pl_InParams pl @ pl_OutParams pl)
         (WriteString (''pipeline '' @ pl_Id pl @ ''('' @ NEWLINE) p0) = Some p2"
      and 3: "formatCalls fmtG srt ordered (WriteString ('')'' @ NEWLINE @ ''{'') p2) = Some (p3, calls')"
      and 4: "ReturnStm_format fmtG (Ret pl) (WriteString NEWLINE p3) = Some p4"
      and 5: "whenSome (pl_Retain pl) PipelineRetains_format
               (if pl_Retain pl \<noteq> None then WriteString NEWLINE p4 else p4) = Some p5"
      and q: "pq = WriteString (''}'' @ NEWLINE) p5"
    assume r: "\<And>mw tw iw hw p0 p2.
        measureParamsWidths [pl_InParams pl, pl_OutParams pl] = (mw, tw, iw, hw) \<Longrightarrow>
        printComments pp (pl_Node pl) [] = Some p0 \<Longrightarrow>
        Params_format mw tw iw hw (pl_InParams pl @ pl_OutParams pl)
         (WriteString (''pipeline '' @ pl_Id pl @ ''('' @ NEWLINE) p0) = Some p2 \<Longrightarrow>
        follows p2 pq \<Longrightarrow> thesis"
    have f3: "follows p2 p3"
      using formatCalls_follows[OF 3] follows_WriteString[OF follows_refl, of p2] follows_trans by blast
    have f4: "follows p3 p4"
      using ReturnStm_format_follows[OF 4] follows_WriteString[OF follows_refl, of p3] follows_trans
      by blast
    have "follows (if pl_Retain pl \<noteq> None then WriteString NEWLINE p4 else p4) p5"
      using 5 by (rule whenSome_follows[rotated]) (rule PipelineRetains_format_follows)
    moreover have "follows p4 (if pl_Retain pl \<noteq> None then WriteString NEWLINE p4 else p4)"
      by (simp add: follows_refl follows_WriteString)
    ultimately have f5: "follows p4 p5" using follows_trans by blast
    have "follows p2 pq"
      unfolding q using f3 f4 f5 by (blast intro: follows_trans follows_WriteString)
    with m 0 2 show thesis by (rule r)
  qed
  from measureParamsWidths_widths[of "[pl_InParams pl, pl_OutParams pl]"] m
  have w: "Max (insert 0 (idLengths (pl_InParams pl @ pl_OutParams pl))) = iw"
    "Max (insert 0 (helpLengths (pl_InParams pl @ pl_OutParams pl))) = hw"
    by (simp_all add: idWidthOf_def helpWidthOf_def)
  from follows_buf[OF f] obtain t where t: "buf pq = buf p2 @ t" by blast
  show "\<exists>p0 p2 t.
           printComments pp (pl_Node pl) '''' = Some p0
           \<and> Params_format
                 (modeWidthOf (measureParamsWidths [pl_InParams pl, pl_OutParams pl]))
                 (typeWidthOf (measureParamsWidths [pl_InParams pl, pl_OutParams pl]))
                 (Max (insert 0 (idLengths (pl_InParams pl @ pl_OutParams pl))))
                 (Max (insert 0 (helpLengths (pl_InParams pl @ pl_OutParams pl))))
                 (pl_InParams pl @ pl_OutParams pl)
                 (WriteString (''pipeline '' @ pl_Id pl @ ''('' @ NEWLINE) p0) = Some p2
           \<and> buf pq = buf p2 @ t"
    unfolding w
    by (intro exI[of _ p0] exI[of _ p2] exI[of _ t])
       (use 0 2 t in \<open>simp add: m modeWidthOf_def typeWidthOf_def\<close>)
next
  assume "paramFormat mw tw iw hw param p = Some q
        \<and> par_Id param \<noteq> ''default'' \<and> par_Id param \<noteq> '''' \<and> Help param \<noteq> ''''
        \<and> len (par_Id param) \<le> iw \<and> 0 \<le> ArrayDim param"
  then show "\<exists>p1 col.
           printComments p (par_Node param) INDENT = Some p1
           \<and> length col = nat (4 + mw + 1 + tw + 1 + iw + 2)
           \<and> buf q = buf p1 @ col @ DQ @ Help param @ DQ
                     @ (if OutName param \<noteq> ''''
                        then replicate (nat (hw - len (Help param))) CHR '' '' @ ''  ''
                             @ DQ @ OutName param @ DQ
                        else '''')
                     @ '','' @ NEWLINE"
    by (intro paramFormat_columns) simp_all
qed

theorem parameter_column_widths_witness:
  "30 < Max (insert 0 (idLengths (st_InParams wideStage @ st_OutParams wideStage)))
   \<and> Max (insert 0 (idLengths (st_InParams wideStage @ st_OutParams wideStage))) = 33
   \<and> chunkWidths wideStage = (5, 9)
   \<and> Max (insert 0 (idLengths (ChunkIns wideStage @ ChunkOuts wideStage))) = 5
   \<and> Max (insert 0 (helpLengths (ChunkIns wideStage @ ChunkOuts wideStage))) = 9
   \<and> (\<exists>q pl' p0 p2 t.
         Pipeline_format noFloat stableSort PIPELINE emptyPrinter = Some (q, pl')
         \<and> printComments emptyPrinter (pl_Node PIPELINE) '''' = Some p0
         \<and> Params_format 3 3 7 0 (pl_InParams PIPELINE @ pl_OutParams PIPELINE)
              (WriteString (''pipeline PIPELINE('' @ NEWLINE) p0) = Some p2
         \<and> buf q = buf p2 @ t)
   \<and> (\<exists>q col.
         paramFormat 3 3 23 4 (mkParam InParam ''int'' ''a'' ''help'') emptyPrinter = Some q
         \<and> length col = 37
         \<and> buf q = col @ DQ @ ''help'' @ DQ @ '','' @ NEWLINE)"
proof -
  note w1 = parameter_column_widths[of _ "[st_InParams wideStage, st_OutParams wideStage]" wideStage]
  have "idWidthOf (measureParamsWidths [st_InParams wideStage, st_OutParams wideStage]) = 33"
    by code_simp
  with w1[THEN conjunct2, THEN conjunct2, THEN conjunct1]
  have i: "Max (insert 0 (idLengths (st_InParams wideStage @ st_OutParams wideStage))) = 33"
    by simp
  then have g: "30 < Max (insert 0 (idLengths (st_InParams wideStage @ st_OutParams wideStage)))
        \<or> 20 < Max (insert 0 (helpLengths (st_InParams wideStage @ st_OutParams wideStage)))"
    by simp
  note c = w1[THEN conjunct2, THEN conjunct2, THEN conjunct2, THEN conjunct2, THEN conjunct2,
      THEN conjunct1, THEN mp, OF g, THEN conjunct2]
  note w2 = parameter_column_widths[of _ "[ChunkIns wideStage, ChunkOuts wideStage]"]
  have "idWidthOf (measureParamsWidths [ChunkIns wideStage, ChunkOuts wideStage]) = 5"
    "helpWidthOf (measureParamsWidths [ChunkIns wideStage, ChunkOuts wideStage]) = 9"
    by code_simp+
  with w2[THEN conjunct2, THEN conjunct2, THEN conjunct1]
    w2[THEN conjunct2, THEN conjunct2, THEN conjunct2, THEN conjunct1]
  have c5: "Max (insert 0 (idLengths (ChunkIns wideStage @ ChunkOuts wideStage))) = 5"
    and c9: "Max (insert 0 (helpLengths (ChunkIns wideStage @ ChunkOuts wideStage))) = 9"
    by simp_all
  from c c5 c9 have cw: "chunkWidths wideStage = (5, 9)" by simp
  have pipe: "\<exists>q pl' p0 p2 t.
         Pipeline_format noFloat stableSort PIPELINE emptyPrinter = Some (q, pl')
         \<and> printComments emptyPrinter (pl_Node PIPELINE) '''' = Some p0
         \<and> Params_format 3 3 7 0 (pl_InParams PIPELINE @ pl_OutParams PIPELINE)
              (WriteString (''pipeline PIPELINE('' @ NEWLINE) p0) = Some p2
         \<and> buf q = buf p2 @ t"
  proof -
    have "map_option (\<lambda>r. Calls (snd r)) (Pipeline_format noFloat stableSort PIPELINE emptyPrinter) \<noteq> None"
      by code_simp
    then obtain q pl' where r: "Pipeline_format noFloat stableSort PIPELINE emptyPrinter = Some (q, pl')"
      by (cases "Pipeline_format noFloat stableSort PIPELINE emptyPrinter") auto
    note w3 = parameter_column_widths[of _ "[pl_InParams PIPELINE, pl_OutParams PIPELINE]" _ _
        noFloat stableSort PIPELINE emptyPrinter q pl']
    note e = w3[THEN conjunct2, THEN conjunct2, THEN conjunct2, THEN conjunct2, THEN conjunct2,
        THEN conjunct2, THEN conjunct1, THEN mp, OF r]
    have m: "modeWidthOf (measureParamsWidths [pl_InParams PIPELINE, pl_OutParams PIPELINE]) = 3"
      "typeWidthOf (measureParamsWidths [pl_InParams PIPELINE, pl_OutParams PIPELINE]) = 3"
      "idWidthOf (measureParamsWidths [pl_InParams PIPELINE, pl_OutParams PIPELINE]) = 7"
      "helpWidthOf (measureParamsWidths [pl_InParams PIPELINE, pl_OutParams PIPELINE]) = 0"
      by code_simp+
    with w3[THEN conjunct2, THEN conjunct2, THEN conjunct1]
      w3[THEN conjunct2, THEN conjunct2, THEN conjunct2, THEN conjunct1]
    have x: "Max (insert 0 (idLengths (pl_InParams PIPELINE @ pl_OutParams PIPELINE))) = 7"
      "Max (insert 0 (helpLengths (pl_InParams PIPELINE @ pl_OutParams PIPELINE))) = 0"
      by simp_all
    have n: "pl_Id PIPELINE = ''PIPELINE''" by (simp add: PIPELINE_def)
    from e obtain p0 p2 t where "printComments emptyPrinter (pl_Node PIPELINE) '''' = Some p0"
      "Params_format 3 3 7 0 (pl_InParams PIPELINE @ pl_OutParams PIPELINE)
              (WriteString (''pipeline PIPELINE('' @ NEWLINE) p0) = Some p2"
      "buf q = buf p2 @ t"
      unfolding m x n by (elim exE conjE) simp
    with r show ?thesis by blast
  qed
  have par: "\<exists>q col.
         paramFormat 3 3 23 4 (mkParam InParam ''int'' ''a'' ''help'') emptyPrinter = Some q
         \<and> length col = 37
         \<and> buf q = col @ DQ @ ''help'' @ DQ @ '','' @ NEWLINE"
  proof -
    have "map_option buf (paramFormat 3 3 23 4 (mkParam InParam ''int'' ''a'' ''help'') emptyPrinter) \<noteq> None"
      by code_simp
    then obtain q where r: "paramFormat 3 3 23 4 (mkParam InParam ''int'' ''a'' ''help'') emptyPrinter = Some q"
      by (cases "paramFormat 3 3 23 4 (mkParam InParam ''int'' ''a'' ''help'') emptyPrinter") auto
    have h: "paramFormat 3 3 23 4 (mkParam InParam ''int'' ''a'' ''help'') emptyPrinter = Some q
        \<and> par_Id (mkParam InParam ''int'' ''a'' ''help'') \<noteq> ''default''
        \<and> par_Id (mkParam InParam ''int'' ''a'' ''help'') \<noteq> ''''
        \<and> Help (mkParam InParam ''int'' ''a'' ''help'') \<noteq> ''''
        \<and> len (par_Id (mkParam InParam ''int'' ''a'' ''help'')) \<le> 23
        \<and> 0 \<le> ArrayDim (mkParam InParam ''int'' ''a'' ''help'')"
      using r by (simp add: mkParam_def len_def)
    note w4 = parameter_column_widths[of _ _ _ emptyPrinter _ _ _ _ _ _ 3 3 23 4
        "mkParam InParam ''int'' ''a'' ''help''" _ q]
    note e = w4[THEN conjunct2, THEN conjunct2, THEN conjunct2, THEN conjunct2, THEN conjunct2,
        THEN conjunct2, THEN conjunct2, THEN conjunct2, THEN conjunct2, THEN conjunct1, THEN mp, OF h]
    have pc: "printComments emptyPrinter (par_Node (mkParam InParam ''int'' ''a'' ''help'')) INDENT
        = Some (emptyPrinter\<lparr>lastComment := SourceLoc 1 (Some testFile)\<rparr>)"
      by (simp add: mkParam_def printComments_node emptyPrinter_def)
    from e obtain p1 col where
      "printComments emptyPrinter (par_Node (mkParam InParam ''int'' ''a'' ''help'')) INDENT = Some p1"
      "length col = nat (4 + 3 + 1 + 3 + 1 + 23 + 2)"
      "buf q = buf p1 @ col @ DQ @ Help (mkParam InParam ''int'' ''a'' ''help'') @ DQ
                     @ (if OutName (mkParam InParam ''int'' ''a'' ''help'') \<noteq> ''''
                        then replicate (nat (4 - len (Help (mkParam InParam ''int'' ''a'' ''help'')))) CHR '' ''
                             @ ''  '' @ DQ @ OutName (mkParam InParam ''int'' ''a'' ''help'') @ DQ
                        else '''')
                     @ '','' @ NEWLINE"
      by (elim exE conjE)
    with pc have "length col = 37" "buf q = col @ DQ @ ''help'' @ DQ @ '','' @ NEWLINE"
      by (auto simp: mkParam_def emptyPrinter_def)
    with r show ?thesis by blast
  qed
  from i cw c5 c9 pipe par show ?thesis by simp
qed

subsection \<open>The bulk export\<close>

text \<open>Storing a list of declarations under their identifiers, one after the other.\<close>

lemma fold_store_other:
  "k \<notin> key ` set xs \<Longrightarrow> fold (\<lambda>x m. m(key x \<mapsto> x)) xs m k = m k"
  by (induction xs arbitrary: m) auto

lemma fold_store_last:
  "k \<in> key ` set xs \<Longrightarrow> \<exists>y \<in> set xs. key y = k \<and> fold (\<lambda>x m. m(key x \<mapsto> x)) xs m k = Some y"
proof (induction xs arbitrary: m)
  case Nil
  then show ?case by simp
next
  case (Cons z zs)
  show ?case
  proof (cases "k \<in> key ` set zs")
    case True
    from Cons.IH[OF this, of "m(key z \<mapsto> z)"] show ?thesis by auto
  next
    case False
    with Cons.prems have kz: "key z = k" by auto
    have "fold (\<lambda>x m. m(key x \<mapsto> x)) (z # zs) m k
            = fold (\<lambda>x m. m(key x \<mapsto> x)) zs (m(key z \<mapsto> z)) k"
      by simp
    also have "\<dots> = (m(key z \<mapsto> z)) k"
      by (rule fold_store_other[OF False])
    also have "\<dots> = Some z"
      using kz by simp
    finally have r: "fold (\<lambda>x m. m(key x \<mapsto> x)) (z # zs) m k = Some z" .
    show ?thesis
    proof (intro bexI[of _ z] conjI)
      show "key z = k" by (rule kz)
      show "fold (\<lambda>x m. m(key x \<mapsto> x)) (z # zs) m k = Some z" by (rule r)
      show "z \<in> set (z # zs)" by simp
    qed
  qed
qed

lemma dumpAst_maps:
  "jd_UserTypes (dumpAst ast jd) = fold (\<lambda>t m. m(ut_Id t \<mapsto> t)) (UserTypes ast) (jd_UserTypes jd)"
  "jd_Stages (dumpAst ast jd) = fold (\<lambda>s m. m(st_Id s \<mapsto> s)) (Stages ast) (jd_Stages jd)"
  "jd_Pipelines (dumpAst ast jd) = fold (\<lambda>p m. m(pl_Id p \<mapsto> p)) (Pipelines ast) (jd_Pipelines jd)"
proof -
  have u: "jd_UserTypes (fold (\<lambda>t d. d\<lparr>jd_UserTypes := (jd_UserTypes d)(ut_Id t \<mapsto> t)\<rparr>) ts d)
             = fold (\<lambda>t m. m(ut_Id t \<mapsto> t)) ts (jd_UserTypes d)
           \<and> jd_Stages (fold (\<lambda>t d. d\<lparr>jd_UserTypes := (jd_UserTypes d)(ut_Id t \<mapsto> t)\<rparr>) ts d)
             = jd_Stages d
           \<and> jd_Pipelines (fold (\<lambda>t d. d\<lparr>jd_UserTypes := (jd_UserTypes d)(ut_Id t \<mapsto> t)\<rparr>) ts d)
             = jd_Pipelines d" for ts d
    by (induction ts arbitrary: d) auto
  have s: "jd_Stages (fold (\<lambda>t d. d\<lparr>jd_Stages := (jd_Stages d)(st_Id t \<mapsto> t)\<rparr>) ts d)
             = fold (\<lambda>t m. m(st_Id t \<mapsto> t)) ts (jd_Stages d)
           \<and> jd_UserTypes (fold (\<lambda>t d. d\<lparr>jd_Stages := (jd_Stages d)(st_Id t \<mapsto> t)\<rparr>) ts d)
             = jd_UserTypes d
           \<and> jd_Pipelines (fold (\<lambda>t d. d\<lparr>jd_Stages := (jd_Stages d)(st_Id t \<mapsto> t)\<rparr>) ts d)
             = jd_Pipelines d" for ts d
    by (induction ts arbitrary: d) auto
  have p: "jd_Pipelines (fold (\<lambda>t d. d\<lparr>jd_Pipelines := (jd_Pipelines d)(pl_Id t \<mapsto> t)\<rparr>) ts d)
             = fold (\<lambda>t m. m(pl_Id t \<mapsto> t)) ts (jd_Pipelines d)
           \<and> jd_UserTypes (fold (\<lambda>t d. d\<lparr>jd_Pipelines := (jd_Pipelines d)(pl_Id t \<mapsto> t)\<rparr>) ts d)
             = jd_UserTypes d
           \<and> jd_Stages (fold (\<lambda>t d. d\<lparr>jd_Pipelines := (jd_Pipelines d)(pl_Id t \<mapsto> t)\<rparr>) ts d)
             = jd_Stages d" for ts d
    by (induction ts arbitrary: d) auto
  show "jd_UserTypes (dumpAst ast jd) = fold (\<lambda>t m. m(ut_Id t \<mapsto> t)) (UserTypes ast) (jd_UserTypes jd)"
    "jd_Stages (dumpAst ast jd) = fold (\<lambda>s m. m(st_Id s \<mapsto> s)) (Stages ast) (jd_Stages jd)"
    "jd_Pipelines (dumpAst ast jd) = fold (\<lambda>p m. m(pl_Id p \<mapsto> p)) (Pipelines ast) (jd_Pipelines jd)"
    by (simp_all add: dumpAst_def Let_def u s p)
qed

text \<open>
  The entry of a key after a run of units: when the unit \<open>a\<close> declares the key and no
  unit after it does, the entry is a declaration of \<open>a\<close>.
\<close>

lemma last_writer:
  assumes step: "\<And>ast jd. proj (dumpAst ast jd) = fold (\<lambda>x m. m(key x \<mapsto> x)) (decls ast) (proj jd)"
    and x: "x \<in> set (decls a)"
    and later: "\<forall>b \<in> set post. key x \<notin> key ` set (decls b)"
  shows "\<exists>y \<in> set (decls a). key y = key x \<and> proj (fold dumpAst (pre @ a # post) jd) (key x) = Some y"
proof -
  have keep: "proj (fold dumpAst bs d) (key x) = proj d (key x)"
    if "\<forall>b \<in> set bs. key x \<notin> key ` set (decls b)" for bs d
    using that by (induction bs arbitrary: d) (simp_all add: step fold_store_other)
  from x have "key x \<in> key ` set (decls a)" by simp
  from fold_store_last[OF this, of "proj (fold dumpAst pre jd)"]
  obtain y where "y \<in> set (decls a)" "key y = key x"
    "proj (dumpAst a (fold dumpAst pre jd)) (key x) = Some y"
    by (auto simp: step)
  with keep[OF later, of "dumpAst a (fold dumpAst pre jd)"] show ?thesis by auto
qed

text \<open>
  C10: when a user type (a stage, a pipeline) is declared by one AST of the list and,
  under the same identifier, by an AST after it that is the last to declare the
  identifier, the map exported under the identifier holds a declaration of the later
  AST (one map entry: the earlier declaration is gone). The export is total: the only
  error text comes from the marshalling.
\<close>

theorem JsonDumpAsts_last_writer_wins:
  "(t \<in> set (UserTypes a) \<and> t' \<in> set (UserTypes b) \<and> ut_Id t = ut_Id t'
      \<and> (\<forall>c \<in> set post. ut_Id t' \<notin> ut_Id ` set (UserTypes c)) \<longrightarrow>
      (\<exists>u \<in> set (UserTypes b). ut_Id u = ut_Id t
           \<and> jd_UserTypes (JsonDump_of (pre @ a # mid @ b # post)) (ut_Id t) = Some u))
   \<and> (s \<in> set (Stages a) \<and> s' \<in> set (Stages b) \<and> st_Id s = st_Id s'
      \<and> (\<forall>c \<in> set post. st_Id s' \<notin> st_Id ` set (Stages c)) \<longrightarrow>
      (\<exists>u \<in> set (Stages b). st_Id u = st_Id s
           \<and> jd_Stages (JsonDump_of (pre @ a # mid @ b # post)) (st_Id s) = Some u))
   \<and> (p \<in> set (Pipelines a) \<and> p' \<in> set (Pipelines b) \<and> pl_Id p = pl_Id p'
      \<and> (\<forall>c \<in> set post. pl_Id p' \<notin> pl_Id ` set (Pipelines c)) \<longrightarrow>
      (\<exists>u \<in> set (Pipelines b). pl_Id u = pl_Id p
           \<and> jd_Pipelines (JsonDump_of (pre @ a # mid @ b # post)) (pl_Id p) = Some u))
   \<and> (marshal (JsonDump_of asts) = Inr txt \<longrightarrow> JsonDumpAsts marshal asts = txt)"
proof (intro conjI impI)
  have split: "pre @ a # mid @ b # post = (pre @ a # mid) @ b # post" by simp
  {
    assume h: "t \<in> set (UserTypes a) \<and> t' \<in> set (UserTypes b) \<and> ut_Id t = ut_Id t'
      \<and> (\<forall>c \<in> set post. ut_Id t' \<notin> ut_Id ` set (UserTypes c))"
    from last_writer[of jd_UserTypes ut_Id UserTypes t' b post "pre @ a # mid", OF dumpAst_maps(1)] h
    show "\<exists>u \<in> set (UserTypes b). ut_Id u = ut_Id t
           \<and> jd_UserTypes (JsonDump_of (pre @ a # mid @ b # post)) (ut_Id t) = Some u"
      unfolding JsonDump_of_def split by auto
  }
  {
    assume h: "s \<in> set (Stages a) \<and> s' \<in> set (Stages b) \<and> st_Id s = st_Id s'
      \<and> (\<forall>c \<in> set post. st_Id s' \<notin> st_Id ` set (Stages c))"
    from last_writer[of jd_Stages st_Id Stages s' b post "pre @ a # mid", OF dumpAst_maps(2)] h
    show "\<exists>u \<in> set (Stages b). st_Id u = st_Id s
           \<and> jd_Stages (JsonDump_of (pre @ a # mid @ b # post)) (st_Id s) = Some u"
      unfolding JsonDump_of_def split by auto
  }
  {
    assume h: "p \<in> set (Pipelines a) \<and> p' \<in> set (Pipelines b) \<and> pl_Id p = pl_Id p'
      \<and> (\<forall>c \<in> set post. pl_Id p' \<notin> pl_Id ` set (Pipelines c))"
    from last_writer[of jd_Pipelines pl_Id Pipelines p' b post "pre @ a # mid", OF dumpAst_maps(3)] h
    show "\<exists>u \<in> set (Pipelines b). pl_Id u = pl_Id p
           \<and> jd_Pipelines (JsonDump_of (pre @ a # mid @ b # post)) (pl_Id p) = Some u"
      unfolding JsonDump_of_def split by auto
  }
  {
    assume "marshal (JsonDump_of asts) = Inr txt"
    then show "JsonDumpAsts marshal asts = txt" by (simp add: JsonDumpAsts_def)
  }
qed

theorem JsonDumpAsts_last_writer_wins_witness:
  "\<lparr>ut_Node = node 1, ut_Id = ''json''\<rparr> \<in> set (UserTypes (declaringAst 1))
   \<and> \<lparr>ut_Node = node 9, ut_Id = ''json''\<rparr> \<in> set (UserTypes (declaringAst 9))
   \<and> jd_UserTypes (JsonDump_of [declaringAst 1, declaringAst 9]) ''json''
       = Some \<lparr>ut_Node = node 9, ut_Id = ''json''\<rparr>
   \<and> wideStage\<lparr>st_Node := node 1\<rparr> \<in> set (Stages (declaringAst 1))
   \<and> jd_Stages (JsonDump_of [declaringAst 1, declaringAst 9]) ''WIDE''
       = Some (wideStage\<lparr>st_Node := node 9\<rparr>)
   \<and> PIPELINE\<lparr>pl_Node := node 1\<rparr> \<in> set (Pipelines (declaringAst 1))
   \<and> jd_Pipelines (JsonDump_of [declaringAst 1, declaringAst 9]) ''PIPELINE''
       = Some (PIPELINE\<lparr>pl_Node := node 9\<rparr>)
   \<and> marshalNothing (JsonDump_of [declaringAst 1, declaringAst 9]) = Inr ''{}''
   \<and> JsonDumpAsts marshalNothing [declaringAst 1, declaringAst 9] = ''{}''"
proof -
  note t = JsonDumpAsts_last_writer_wins[of
      "\<lparr>ut_Node = node 1, ut_Id = ''json''\<rparr>" "declaringAst 1"
      "\<lparr>ut_Node = node 9, ut_Id = ''json''\<rparr>" "declaringAst 9" "[]"
      "[]" "[]"
      "wideStage\<lparr>st_Node := node 1\<rparr>" "wideStage\<lparr>st_Node := node 9\<rparr>"
      "PIPELINE\<lparr>pl_Node := node 1\<rparr>" "PIPELINE\<lparr>pl_Node := node 9\<rparr>"
      marshalNothing "[declaringAst 1, declaringAst 9]" "''{}''"]
  have u: "UserTypes (declaringAst l) = [\<lparr>ut_Node = node l, ut_Id = ''json''\<rparr>]"
    and s: "Stages (declaringAst l) = [wideStage\<lparr>st_Node := node l\<rparr>]"
    and p: "Pipelines (declaringAst l) = [PIPELINE\<lparr>pl_Node := node l\<rparr>]" for l
    by (simp_all add: declaringAst_def)
  have ids: "st_Id (wideStage\<lparr>st_Node := node l\<rparr>) = ''WIDE''"
    "pl_Id (PIPELINE\<lparr>pl_Node := node l\<rparr>) = ''PIPELINE''" for l
    by (simp_all add: wideStage_def PIPELINE_def)
  have m: "marshalNothing (JsonDump_of [declaringAst 1, declaringAst 9]) = Inr ''{}''"
    by (simp add: marshalNothing_def)
  from t have "jd_UserTypes (JsonDump_of [declaringAst 1, declaringAst 9]) ''json''
       = Some \<lparr>ut_Node = node 9, ut_Id = ''json''\<rparr>"
    by (simp add: u)
  moreover from t have "jd_Stages (JsonDump_of [declaringAst 1, declaringAst 9]) ''WIDE''
       = Some (wideStage\<lparr>st_Node := node 9\<rparr>)"
    by (simp add: s ids)
  moreover from t have "jd_Pipelines (JsonDump_of [declaringAst 1, declaringAst 9]) ''PIPELINE''
       = Some (PIPELINE\<lparr>pl_Node := node 9\<rparr>)"
    by (simp add: p ids)
  moreover from t m have "JsonDumpAsts marshalNothing [declaringAst 1, declaringAst 9] = ''{}''"
    by blast
  ultimately show ?thesis using m by (simp add: u s p)
qed

subsection \<open>What formatting writes to the AST\<close>

text \<open>
  C4, as the claim states it, fails: formatting the unit \<^verbatim>\<open>call local STAGE(input = 1,)\<close>
  returns with the call's \<open>Modifiers.Bindings\<close>, nil before, set to a table that holds
  \<open>local = true\<close>.
\<close>

theorem Ast_format_writes_modifier_bindings:
  "Call localAst = Some localCall
   \<and> mod_Bindings (call_Modifiers localCall) = None
   \<and> map_option (\<lambda>r. snd (snd r)) (Ast_format noFloat stableSort someChoices True localAst)
       = Some (Some (localCall\<lparr>call_Modifiers := (call_Modifiers localCall)
            \<lparr>mod_Bindings := Some \<lparr>bss_Node = node 1, bss_List = [trueBinding (node 1) ''local'']\<rparr>\<rparr>\<rparr>))"
  by code_simp

text \<open>
  C4 (amended): when \<open>format\<close> returns, a stage is as it was; a pipeline is as it was
  but for its call list, which holds the topologically sorted calls, each as
  \<open>CallStm.format\<close> leaves it; and a call statement, in a pipeline or at the top level,
  is as it was but for \<open>Modifiers.Bindings\<close>: when the call has a bare modifier or a
  bound-form entry, that table (created on the call's node when nil) holds the bound-form
  entries and the bare modifiers added in bound form, sorted by identifier, in the
  arrangement that \<^verbatim>\<open>sort.Slice\<close> leaves; otherwise the call is untouched.
\<close>

theorem Ast_format_writes:
  assumes "sortsById srt"
  shows
  "(Ast_format fmtG srt ch w ast = Some (txt, callables', call') \<longrightarrow>
      map (formattedCallable srt) (Callables ast) = map Some callables'
      \<and> call' = map_option (formattedCall srt) (Call ast))
   \<and> formattedCallable srt (CStage s) = Some (CStage s)
   \<and> (formattedCallable srt (CPipeline pl) = Some c' \<longrightarrow>
        (\<exists>ordered. topoSort (Calls pl) = Some ordered
            \<and> c' = CPipeline (pl\<lparr>Calls := map (formattedCall srt) ordered\<rparr>)))
   \<and> formattedCall srt c
       = c\<lparr>call_Modifiers :=
             (call_Modifiers c)\<lparr>mod_Bindings := mod_Bindings (call_Modifiers (formattedCall srt c))\<rparr>\<rparr>
   \<and> (hasModifiers (call_Modifiers c) \<longrightarrow>
        (\<exists>entries.
           mod_Bindings (call_Modifiers (formattedCall srt c))
             = Some ((modifierTable c)\<lparr>bss_List := entries\<rparr>)
           \<and> entries = srt (modifierEntries c)
           \<and> sorted (map bs_Id entries)
           \<and> mset entries
               = mset (bss_List (modifierTable c))
                 + mset (map (trueBinding (bss_Node (modifierTable c)))
                      (filter (\<lambda>k. bareModifier (call_Modifiers c) k
                                   \<and> k \<notin> bs_Id ` set (bss_List (modifierTable c)))
                         [''local'', ''preflight'', ''volatile'']))))
   \<and> (\<not> hasModifiers (call_Modifiers c) \<longrightarrow> formattedCall srt c = c)"
proof (intro conjI impI)
  assume "Ast_format fmtG srt ch w ast = Some (txt, callables', call')"
  then obtain p where "Ast_formatNodes fmtG srt ch w ast = Some (p, callables', call')"
    by (auto simp: Ast_format_def split: option.splits)
  from Ast_formatNodes_result[OF this]
  show "map (formattedCallable srt) (Callables ast) = map Some callables'"
    and "call' = map_option (formattedCall srt) (Call ast)"
    by simp_all
next
  show "formattedCallable srt (CStage s) = Some (CStage s)" by simp
next
  assume "formattedCallable srt (CPipeline pl) = Some c'"
  then show "\<exists>ordered. topoSort (Calls pl) = Some ordered
            \<and> c' = CPipeline (pl\<lparr>Calls := map (formattedCall srt) ordered\<rparr>)"
    by (auto split: option.splits)
next
  show "formattedCall srt c
       = c\<lparr>call_Modifiers :=
             (call_Modifiers c)\<lparr>mod_Bindings := mod_Bindings (call_Modifiers (formattedCall srt c))\<rparr>\<rparr>"
    by (simp add: formattedCall_def)
next
  assume h: "hasModifiers (call_Modifiers c)"
  have e: "modifierEntries c
             = bss_List (modifierTable c)
               @ map (trueBinding (bss_Node (modifierTable c)))
                   (filter (\<lambda>k. bareModifier (call_Modifiers c) k
                                \<and> k \<notin> bs_Id ` set (bss_List (modifierTable c)))
                      [''local'', ''preflight'', ''volatile''])"
    by (simp add: modifierEntries_def Let_def bareModifier_def found_iff
          local_def preflight_def volatile_def)
  show "\<exists>entries.
           mod_Bindings (call_Modifiers (formattedCall srt c))
             = Some ((modifierTable c)\<lparr>bss_List := entries\<rparr>)
           \<and> entries = srt (modifierEntries c)
           \<and> sorted (map bs_Id entries)
           \<and> mset entries
               = mset (bss_List (modifierTable c))
                 + mset (map (trueBinding (bss_Node (modifierTable c)))
                      (filter (\<lambda>k. bareModifier (call_Modifiers c) k
                                   \<and> k \<notin> bs_Id ` set (bss_List (modifierTable c)))
                         [''local'', ''preflight'', ''volatile'']))"
  proof (intro exI[of _ "srt (modifierEntries c)"] conjI)
    show "mod_Bindings (call_Modifiers (formattedCall srt c))
             = Some ((modifierTable c)\<lparr>bss_List := srt (modifierEntries c)\<rparr>)"
      using h by (simp add: formattedCall_def modifierBindings_def)
    show "srt (modifierEntries c) = srt (modifierEntries c)" by (rule refl)
    show "sorted (map bs_Id (srt (modifierEntries c)))" by (rule sortsById_sorted[OF assms])
    have "mset (srt (modifierEntries c)) = mset (modifierEntries c)"
      by (rule sortsById_mset[OF assms])
    also have "\<dots> = mset (bss_List (modifierTable c))
                 + mset (map (trueBinding (bss_Node (modifierTable c)))
                      (filter (\<lambda>k. bareModifier (call_Modifiers c) k
                                   \<and> k \<notin> bs_Id ` set (bss_List (modifierTable c)))
                         [''local'', ''preflight'', ''volatile'']))"
      by (subst e) simp
    finally show "mset (srt (modifierEntries c))
               = mset (bss_List (modifierTable c))
                 + mset (map (trueBinding (bss_Node (modifierTable c)))
                      (filter (\<lambda>k. bareModifier (call_Modifiers c) k
                                   \<and> k \<notin> bs_Id ` set (bss_List (modifierTable c)))
                         [''local'', ''preflight'', ''volatile'']))" .
  qed
next
  assume "\<not> hasModifiers (call_Modifiers c)"
  then show "formattedCall srt c = c" by (simp add: formattedCall_def)
qed

theorem Ast_format_writes_witness:
  "sortsById stableSort
   \<and> map_option (\<lambda>r. snd (snd r)) (Ast_format noFloat stableSort someChoices True localAst)
     = Some (Some (formattedCall stableSort localCall))
   \<and> hasModifiers (call_Modifiers localCall)
   \<and> mod_Bindings (call_Modifiers (formattedCall stableSort localCall))
       = Some \<lparr>bss_Node = node 1, bss_List = [trueBinding (node 1) ''local'']\<rparr>
   \<and> \<not> hasModifiers (call_Modifiers STAGE_1)
   \<and> formattedCall stableSort STAGE_1 = STAGE_1
   \<and> map_option (\<lambda>r. fst (snd r)) (Ast_format noFloat stableSort someChoices True pipelineAst)
       = Some [CPipeline (PIPELINE\<lparr>Calls := canonicalCalls\<rparr>)]
   \<and> formattedCallable stableSort (CPipeline PIPELINE)
       = Some (CPipeline (PIPELINE\<lparr>Calls := canonicalCalls\<rparr>))"
proof -
  note w = Ast_format_writes[OF stableSort_sortsById]
  obtain out cs call where r: "Ast_format noFloat stableSort someChoices True localAst = Some (out, cs, call)"
    by (cases "Ast_format noFloat stableSort someChoices True localAst")
       ((code_simp; fail), force)
  from w[of noFloat someChoices True localAst out cs call, THEN conjunct1, THEN mp, OF r]
  have "call = map_option (formattedCall stableSort) (Call localAst)" by (rule conjunct2)
  with r have a: "map_option (\<lambda>r. snd (snd r)) (Ast_format noFloat stableSort someChoices True localAst)
     = Some (Some (formattedCall stableSort localCall))"
    by (simp add: localAst_def)
  have h: "hasModifiers (call_Modifiers localCall)" by code_simp
  have tb: "(modifierTable localCall)\<lparr>bss_List := stableSort (modifierEntries localCall)\<rparr>
              = \<lparr>bss_Node = node 1, bss_List = [trueBinding (node 1) ''local'']\<rparr>"
    by code_simp
  from w[of noFloat someChoices True localAst out cs call _ _ _ localCall,
      THEN conjunct2, THEN conjunct2, THEN conjunct2, THEN conjunct2, THEN conjunct1, THEN mp, OF h]
  obtain entries where "mod_Bindings (call_Modifiers (formattedCall stableSort localCall))
             = Some ((modifierTable localCall)\<lparr>bss_List := entries\<rparr>)"
    "entries = stableSort (modifierEntries localCall)"
    by (elim exE conjE)
  with tb have b: "mod_Bindings (call_Modifiers (formattedCall stableSort localCall))
       = Some \<lparr>bss_Node = node 1, bss_List = [trueBinding (node 1) ''local'']\<rparr>"
    by simp
  have n: "\<not> hasModifiers (call_Modifiers STAGE_1)" by code_simp
  from w[of noFloat someChoices True localAst out cs call _ _ _ STAGE_1,
      THEN conjunct2, THEN conjunct2, THEN conjunct2, THEN conjunct2, THEN conjunct2, THEN mp, OF n]
  have c: "formattedCall stableSort STAGE_1 = STAGE_1" .
  obtain out2 cs2 call2 where
    r2: "Ast_format noFloat stableSort someChoices True pipelineAst = Some (out2, cs2, call2)"
    by (cases "Ast_format noFloat stableSort someChoices True pipelineAst")
       ((code_simp; fail), force)
  have fc: "formattedCallable stableSort (CPipeline PIPELINE)
      = Some (CPipeline (PIPELINE\<lparr>Calls := canonicalCalls\<rparr>))"
    by code_simp
  from w[of noFloat someChoices True pipelineAst out2 cs2 call2, THEN conjunct1, THEN mp, OF r2]
  have "map (formattedCallable stableSort) (Callables pipelineAst) = map Some cs2" by (rule conjunct1)
  with fc have "cs2 = [CPipeline (PIPELINE\<lparr>Calls := canonicalCalls\<rparr>)]"
    by (auto simp: pipelineAst_def)
  with r2 have d: "map_option (\<lambda>r. fst (snd r)) (Ast_format noFloat stableSort someChoices True pipelineAst)
       = Some [CPipeline (PIPELINE\<lparr>Calls := canonicalCalls\<rparr>)]"
    by simp
  from stableSort_sortsById a h b n c d fc show ?thesis by simp
qed

subsection \<open>The order of the trailing comments\<close>













text \<open>
  The hypothesis on the comments is needed. On a unit put together by hand, with comments
  of two files and no statement at all (which no alternative of the grammar's \<open>file\<close>
  rule allows), the pool holds two files when \<open>DumpComments\<close> runs, and the two orders
  in which Go may range over it give two texts.
\<close>

lemma Ast_format_without_statements:
  "\<not> commentsDeclared True commentsAst
   \<and> legal_choices noFloat stableSort orderAB True commentsAst
   \<and> legal_choices noFloat stableSort orderBA True commentsAst
   \<and> map_option fst (Ast_format noFloat stableSort orderAB True commentsAst)
       = Some (''# end of a'' @ NEWLINE @ ''# end of b'' @ NEWLINE)
   \<and> map_option fst (Ast_format noFloat stableSort orderBA True commentsAst)
       = Some (''# end of b'' @ NEWLINE @ ''# end of a'' @ NEWLINE)"
proof -
  have n: "Ast_formatNodes noFloat stableSort ch True commentsAst
             = Some (\<lparr>buf = '''',
                      comments = [''/a.mro'' \<mapsto> [\<lparr>cb_Loc = SourceLoc 3 (Some fileA), cb_Value = ''# end of a''\<rparr>],
                                  ''/a/b.mro'' \<mapsto> [\<lparr>cb_Loc = SourceLoc 5 (Some fileB), cb_Value = ''# end of b''\<rparr>]],
                      lastComment = initialLastComment ch commentsAst\<rparr>, [], None)" for ch
    by (simp add: Ast_formatNodes_def commentsAst_def Callables_format_def fileA_def fileB_def)
  have d: "\<not> commentsDeclared True commentsAst" by code_simp
  show ?thesis
    using d
    by (simp add: legal_choices_def Ast_format_def n range_order_def DumpComments_def
          commentsOf_def orderAB_def orderBA_def insert_commute)
qed


end
